theory Spec2Isabelle
  imports Complex_Main
begin

section \<open>Numbers and tensors\<close>

text \<open>
  The program computes in IEEE 754 floating point (numpy \<open>float64\<close>, torch \<open>float32\<close>).
  The type \<open>fl\<close> keeps the special values that the program's operations produce from exact
  inputs (the logarithm of an exact zero, a division by an exact zero, a product of zero and
  an infinity, the two limits that the \<open>float32\<close> sigmoid reaches on finite entries) and
  idealises every other finite result as the exact real number: rounding, overflow of sums
  and products, and the sign of zero are not represented. The single zero stands for
  \<open>+0.0\<close>.
\<close>

datatype fl = Fin real | PInf | NInf | NaN

fun fneg :: "fl \<Rightarrow> fl" where
  "fneg (Fin a) = Fin (- a)"
| "fneg PInf = NInf"
| "fneg NInf = PInf"
| "fneg NaN = NaN"

fun fadd :: "fl \<Rightarrow> fl \<Rightarrow> fl" where
  "fadd (Fin a) (Fin b) = Fin (a + b)"
| "fadd NaN _ = NaN"
| "fadd _ NaN = NaN"
| "fadd PInf NInf = NaN"
| "fadd NInf PInf = NaN"
| "fadd PInf _ = PInf"
| "fadd _ PInf = PInf"
| "fadd NInf _ = NInf"
| "fadd _ NInf = NInf"

definition fsub :: "fl \<Rightarrow> fl \<Rightarrow> fl" where
  "fsub a b = fadd a (fneg b)"

definition inf_of_sign :: "bool \<Rightarrow> fl" where
  "inf_of_sign pos = (if pos then PInf else NInf)"

fun fmul :: "fl \<Rightarrow> fl \<Rightarrow> fl" where
  "fmul (Fin a) (Fin b) = Fin (a * b)"
| "fmul NaN _ = NaN"
| "fmul _ NaN = NaN"
| "fmul (Fin a) PInf = (if a = 0 then NaN else inf_of_sign (0 < a))"
| "fmul (Fin a) NInf = (if a = 0 then NaN else inf_of_sign (a < 0))"
| "fmul PInf (Fin b) = (if b = 0 then NaN else inf_of_sign (0 < b))"
| "fmul NInf (Fin b) = (if b = 0 then NaN else inf_of_sign (b < 0))"
| "fmul PInf PInf = PInf"
| "fmul NInf NInf = PInf"
| "fmul PInf NInf = NInf"
| "fmul NInf PInf = NInf"

fun fdiv :: "fl \<Rightarrow> fl \<Rightarrow> fl" where
  "fdiv (Fin a) (Fin b) =
     (if b = 0 then (if a = 0 then NaN else inf_of_sign (0 < a)) else Fin (a / b))"
| "fdiv NaN _ = NaN"
| "fdiv _ NaN = NaN"
| "fdiv (Fin a) _ = Fin 0"
| "fdiv PInf (Fin b) = inf_of_sign (0 \<le> b)"
| "fdiv NInf (Fin b) = inf_of_sign (b < 0)"
| "fdiv _ _ = NaN"

text \<open>\<open>np.log\<close> and \<open>torch.log\<close> on one entry.\<close>

fun flog :: "fl \<Rightarrow> fl" where
  "flog (Fin a) = (if a = 0 then NInf else if a < 0 then NaN else Fin (ln a))"
| "flog PInf = PInf"
| "flog NInf = NaN"
| "flog NaN = NaN"

text \<open>
  \<open>torch.sigmoid\<close> on one \<open>float32\<close> entry. The parameter is a \<open>float32\<close> tensor, and in
  that format the sigmoid \<open>1 / (1 + exp (- a))\<close> reaches its two limits on finite entries:
  \<open>exp (- a)\<close> overflows above \<open>2 ^ 128\<close>, so the result is exactly \<open>0.0\<close> for
  \<open>a \<le> - 128 ln 2\<close> (about \<open>-88.7\<close>), and \<open>1 + exp (- a)\<close> rounds to \<open>1\<close> once
  \<open>exp (- a) \<le> 2 ^ - 24\<close>, so the result is exactly \<open>1.0\<close> for \<open>a \<ge> 24 ln 2\<close> (about
  \<open>16.6\<close>). Between the two limits the result is idealised as the exact real number.
\<close>

definition sigmoid_lo :: real where
  "sigmoid_lo = - (128 * ln 2)"

definition sigmoid_hi :: real where
  "sigmoid_hi = 24 * ln 2"

definition sigmoid_f32 :: "real \<Rightarrow> real" where
  "sigmoid_f32 a =
     (if a \<le> sigmoid_lo then 0 else if sigmoid_hi \<le> a then 1 else 1 / (1 + exp (- a)))"

fun fsigmoid :: "fl \<Rightarrow> fl" where
  "fsigmoid (Fin a) = Fin (sigmoid_f32 a)"
| "fsigmoid PInf = Fin 1"
| "fsigmoid NInf = Fin 0"
| "fsigmoid NaN = NaN"

definition fsum :: "fl list \<Rightarrow> fl" where
  "fsum xs = foldr fadd xs (Fin 0)"

text \<open>
  A two-dimensional array or tensor: its shape and its rows. The shape is kept beside the
  rows because an array with no rows still has a number of columns.
\<close>

datatype tensor = Tensor (nrows: nat) (ncols: nat) (rows: "fl list list")

definition tmap :: "(fl \<Rightarrow> fl) \<Rightarrow> tensor \<Rightarrow> tensor" where
  "tmap f t = Tensor (nrows t) (ncols t) (map (map f) (rows t))"

text \<open>An elementwise operation on two arrays of one shape.\<close>

definition tzip :: "(fl \<Rightarrow> fl \<Rightarrow> fl) \<Rightarrow> tensor \<Rightarrow> tensor \<Rightarrow> tensor" where
  "tzip f a b = Tensor (nrows a) (ncols a) (map2 (map2 f) (rows a) (rows b))"

datatype py_error = ValueError | IndexError | RuntimeError

definition np_zeros :: "nat \<Rightarrow> nat \<Rightarrow> tensor" where
  "np_zeros r c = Tensor r c (replicate r (replicate c (Fin 0)))"

definition np_ones :: "nat \<Rightarrow> nat \<Rightarrow> tensor" where
  "np_ones r c = Tensor r c (replicate r (replicate c (Fin 1)))"

text \<open>
  The assignment \<open>a[i, j] = v\<close> of numpy: an index from \<open>-n\<close> to \<open>n - 1\<close> is accepted on
  an axis of size \<open>n\<close>, a negative one counting from the end; any other raises IndexError.
\<close>

definition np_index :: "nat \<Rightarrow> int \<Rightarrow> py_error + nat" where
  "np_index n i =
     (if - int n \<le> i \<and> i < int n then Inr (nat (if i < 0 then i + int n else i))
      else Inl IndexError)"

definition set_item :: "tensor \<Rightarrow> int \<Rightarrow> int \<Rightarrow> fl \<Rightarrow> py_error + tensor" where
  "set_item a i j v =
     (case np_index (nrows a) i of
        Inl e \<Rightarrow> Inl e
      | Inr i' \<Rightarrow>
          (case np_index (ncols a) j of
             Inl e \<Rightarrow> Inl e
           | Inr j' \<Rightarrow>
               Inr (Tensor (nrows a) (ncols a) ((rows a)[i' := (rows a ! i')[j' := v]]))))"

section \<open>One-hot encoding\<close>

text \<open>\<open>list.index\<close>: the first position holding the value, \<open>None\<close> for ValueError.\<close>

fun list_index :: "'a list \<Rightarrow> 'a \<Rightarrow> nat option" where
  "list_index [] t = None"
| "list_index (v # vs) t = (if v = t then Some 0 else map_option Suc (list_index vs t))"

text \<open>The local \<open>idx\<close> of \<open>onehot\<close> after the \<open>try\<close> statement.\<close>

definition onehot_idx :: "'a list \<Rightarrow> 'a \<Rightarrow> int" where
  "onehot_idx vocabulary token =
     (case list_index vocabulary token of
        Some i \<Rightarrow> int i
      | None \<Rightarrow> int (length vocabulary) - 1)"

definition onehot :: "'a list \<Rightarrow> 'a \<Rightarrow> py_error + tensor" where
  "onehot vocabulary token =
     set_item (np_zeros (length vocabulary) 1) (onehot_idx vocabulary token) 0 (Fin 1)"

text \<open>The column with a one in row \<open>i\<close> and zeros in the other rows.\<close>

definition unit_column :: "nat \<Rightarrow> nat \<Rightarrow> tensor" where
  "unit_column n i = Tensor n 1 (map (\<lambda>k. [if k = i then Fin 1 else Fin 0]) [0..<n])"

section \<open>Array operations of numpy and torch\<close>

text \<open>\<open>x / c\<close> and \<open>c - x\<close> for an array \<open>x\<close> and a scalar \<open>c\<close>, and unary minus.\<close>

definition div_scalar :: "tensor \<Rightarrow> fl \<Rightarrow> tensor" where
  "div_scalar x c = tmap (\<lambda>v. fdiv v c) x"

definition scalar_sub :: "fl \<Rightarrow> tensor \<Rightarrow> tensor" where
  "scalar_sub c x = tmap (\<lambda>v. fsub c v) x"

definition tneg :: "tensor \<Rightarrow> tensor" where
  "tneg x = tmap fneg x"

definition np_log :: "tensor \<Rightarrow> tensor" where
  "np_log x = tmap flog x"

definition torch_log :: "tensor \<Rightarrow> tensor" where
  "torch_log x = tmap flog x"

definition torch_sigmoid :: "tensor \<Rightarrow> tensor" where
  "torch_sigmoid x = tmap fsigmoid x"

text \<open>\<open>torch.sum(x)\<close>: the sum of all entries.\<close>

definition torch_sum :: "tensor \<Rightarrow> fl" where
  "torch_sum x = fsum (concat (rows x))"

text \<open>\<open>torch.sum(x, 1, keepdim=True)\<close>: one sum per row, as a column.\<close>

definition sum_dim1_keepdim :: "tensor \<Rightarrow> tensor" where
  "sum_dim1_keepdim x = Tensor (nrows x) 1 (map (\<lambda>r. [fsum r]) (rows x))"

text \<open>\<open>x.T\<close>.\<close>

definition transpose_t :: "tensor \<Rightarrow> tensor" where
  "transpose_t x =
     Tensor (ncols x) (nrows x) (map (\<lambda>j. map (\<lambda>r. r ! j) (rows x)) [0..<ncols x])"

text \<open>\<open>a @ b\<close>: the inner dimensions must agree, otherwise RuntimeError.\<close>

definition matmul :: "tensor \<Rightarrow> tensor \<Rightarrow> py_error + tensor" where
  "matmul a b =
     (if ncols a = nrows b
      then Inr (Tensor (nrows a) (ncols b)
             (map (\<lambda>ra. map (\<lambda>j. fsum (map2 fmul ra (map (\<lambda>rb. rb ! j) (rows b))))
                           [0..<ncols b])
                  (rows a)))
      else Inl RuntimeError)"

text \<open>\<open>t.item()\<close>: the entry of a one-element tensor, RuntimeError for any other.\<close>

definition item :: "tensor \<Rightarrow> py_error + fl" where
  "item t = (case rows t of [[v]] \<Rightarrow> Inr v | _ \<Rightarrow> Inl RuntimeError)"

text \<open>
  \<open>np.hstack\<close> of two-dimensional arrays: ValueError for an empty sequence and for
  arrays whose numbers of rows differ.
\<close>

definition np_hstack :: "tensor list \<Rightarrow> py_error + tensor" where
  "np_hstack ts =
     (case ts of
        [] \<Rightarrow> Inl ValueError
      | t # _ \<Rightarrow>
          if list_all (\<lambda>u. nrows u = nrows t) ts
          then Inr (Tensor (nrows t) (sum_list (map ncols ts))
                 (map (\<lambda>i. concat (map (\<lambda>u. rows u ! i) ts)) [0..<nrows t]))
          else Inl ValueError)"

section \<open>The functions of the script\<close>

definition logit :: "tensor \<Rightarrow> tensor" where
  "logit x = tzip fsub (np_log x) (np_log (scalar_sub (Fin 1) x))"

definition normalize_t :: "tensor \<Rightarrow> tensor" where
  "normalize_t x = div_scalar x (torch_sum x)"

definition loss_fn :: "fl \<Rightarrow> fl" where
  "loss_fn p = fneg p"

text \<open>
  The module \<open>Unigram\<close>: its parameter \<open>s\<close> and the gradient that autograd stores with
  it (\<open>None\<close> until a backward pass, and again after \<open>zero_grad\<close>).
\<close>

record unigram =
  s :: tensor
  s_grad :: "tensor option"

definition Unigram_init :: "nat \<Rightarrow> unigram" where
  "Unigram_init V =
     \<lparr>s = logit (div_scalar (np_ones V 1) (Fin (real V))), s_grad = None\<rparr>"

text \<open>
  \<open>forward\<close> returns the pair of the source and, beside it, the module after the call.
\<close>

definition forward :: "unigram \<Rightarrow> tensor \<Rightarrow> py_error + ((tensor \<times> tensor) \<times> unigram)" where
  "forward self input =
     (let p = normalize_t (torch_sigmoid (s self))
      in case matmul (transpose_t (sum_dim1_keepdim input)) (torch_log p) of
           Inl e \<Rightarrow> Inl e
         | Inr r \<Rightarrow> Inr ((r, p), self))"

section \<open>The training script\<close>

text \<open>
  \<open>chr(i + ord("a"))\<close> for \<open>i\<close> in \<open>range(26)\<close>, then the space and \<open>None\<close>.
\<close>

definition vocabulary :: "string option list" where
  "vocabulary = map (\<lambda>c. Some [c]) ''abcdefghijklmnopqrstuvwxyz'' @ [Some '' '', None]"

definition tokens_of :: "string \<Rightarrow> string option list" where
  "tokens_of text = map (\<lambda>c. Some [c]) text"

fun map_result :: "('a \<Rightarrow> py_error + 'b) \<Rightarrow> 'a list \<Rightarrow> py_error + 'b list" where
  "map_result f [] = Inr []"
| "map_result f (x # xs) =
     (case f x of
        Inl e \<Rightarrow> Inl e
      | Inr y \<Rightarrow> (case map_result f xs of Inl e \<Rightarrow> Inl e | Inr ys \<Rightarrow> Inr (y # ys)))"

text \<open>Lines 68 to 71: the \<open>V\<close>-by-\<open>T\<close> matrix \<open>x\<close> of one-hot columns.\<close>

definition encode_corpus :: "'a list \<Rightarrow> 'a list \<Rightarrow> py_error + tensor" where
  "encode_corpus vocab tokens =
     (case map_result (onehot vocab) tokens of
        Inl e \<Rightarrow> Inl e
      | Inr cols \<Rightarrow> np_hstack cols)"

definition num_iterations :: nat where
  "num_iterations = 100"

text \<open>
  Autograd and the Adam optimizer are library code. The loop takes them as parameters:
  \<open>grad_loss s x\<close> is the gradient of the loss with respect to \<open>s\<close> that a backward pass
  computes, and \<open>adam st s g\<close> is one update of the optimizer's state and of the parameter
  from the stored gradient.

  \<open>loss.backward\<close> needs a one-element loss and adds the gradient to the stored one.
\<close>

definition backward ::
  "(tensor \<Rightarrow> tensor \<Rightarrow> tensor) \<Rightarrow> tensor \<Rightarrow> tensor \<Rightarrow> unigram \<Rightarrow> py_error + unigram" where
  "backward grad_loss x loss m =
     (if nrows loss * ncols loss = 1
      then Inr (m\<lparr>s_grad :=
                   Some (case s_grad m of
                           None \<Rightarrow> grad_loss (s m) x
                         | Some g0 \<Rightarrow> tzip fadd g0 (grad_loss (s m) x))\<rparr>)
      else Inl RuntimeError)"

text \<open>\<open>optimizer.step()\<close> skips a parameter that has no gradient.\<close>

definition optimizer_step ::
  "('o \<Rightarrow> tensor \<Rightarrow> tensor \<Rightarrow> 'o \<times> tensor) \<Rightarrow> 'o \<Rightarrow> unigram \<Rightarrow> 'o \<times> unigram" where
  "optimizer_step adam st m =
     (case s_grad m of
        None \<Rightarrow> (st, m)
      | Some g \<Rightarrow> (fst (adam st (s m) g), m\<lparr>s := snd (adam st (s m) g)\<rparr>))"

definition zero_grad :: "unigram \<Rightarrow> unigram" where
  "zero_grad m = m\<lparr>s_grad := None\<rparr>"

record 'o trainer =
  model :: unigram
  optimizer :: 'o
  list_loss :: "nat list"
  list_items :: "fl list"
  last_p :: "tensor option"

text \<open>Lines 86 to 92: the body of the loop at index \<open>i\<close>.\<close>

definition train_iteration ::
  "(tensor \<Rightarrow> tensor \<Rightarrow> tensor) \<Rightarrow> ('o \<Rightarrow> tensor \<Rightarrow> tensor \<Rightarrow> 'o \<times> tensor) \<Rightarrow> tensor \<Rightarrow> nat \<Rightarrow>
   'o trainer \<Rightarrow> py_error + 'o trainer" where
  "train_iteration grad_loss adam x i t =
     (case forward (model t) x of
        Inl e \<Rightarrow> Inl e
      | Inr ((p_pred, p), m1) \<Rightarrow>
          (let loss = tneg p_pred
           in case backward grad_loss x loss m1 of
                Inl e \<Rightarrow> Inl e
              | Inr m2 \<Rightarrow>
                  (let (st3, m3) = optimizer_step adam (optimizer t) m2;
                       m4 = zero_grad m3
                   in case item loss of
                        Inl e \<Rightarrow> Inl e
                      | Inr v \<Rightarrow>
                          Inr (t\<lparr>model := m4, optimizer := st3,
                                 list_loss := list_loss t @ [i],
                                 list_items := list_items t @ [v],
                                 last_p := Some p\<rparr>))))"

text \<open>The \<open>for\<close> loop over the indices it is given.\<close>

fun train_loop ::
  "(tensor \<Rightarrow> tensor \<Rightarrow> tensor) \<Rightarrow> ('o \<Rightarrow> tensor \<Rightarrow> tensor \<Rightarrow> 'o \<times> tensor) \<Rightarrow> tensor \<Rightarrow> nat list \<Rightarrow>
   'o trainer \<Rightarrow> py_error + 'o trainer" where
  "train_loop grad_loss adam x [] t = Inr t"
| "train_loop grad_loss adam x (i # is) t =
     (case train_iteration grad_loss adam x i t of
        Inl e \<Rightarrow> Inl e
      | Inr t' \<Rightarrow> train_loop grad_loss adam x is t')"

text \<open>Lines 75 to 92: the model, the optimizer and the loop over \<open>range(num_iterations)\<close>.\<close>

definition train ::
  "(tensor \<Rightarrow> tensor \<Rightarrow> tensor) \<Rightarrow> ('o \<Rightarrow> tensor \<Rightarrow> tensor \<Rightarrow> 'o \<times> tensor) \<Rightarrow> 'o \<Rightarrow> nat \<Rightarrow> tensor \<Rightarrow>
   py_error + 'o trainer" where
  "train grad_loss adam st0 V x =
     train_loop grad_loss adam x [0..<num_iterations]
       \<lparr>model = Unigram_init V, optimizer = st0, list_loss = [], list_items = [],
        last_p = None\<rparr>"

text \<open>
  Lines 93 to 95: the empirical frequencies \<open>true_p\<close> and the value \<open>min\<close>. Unary minus
  binds tighter than \<open>@\<close>, so the transposed counts are negated before the product.
\<close>

definition true_p :: "tensor \<Rightarrow> nat \<Rightarrow> tensor" where
  "true_p x n = div_scalar (sum_dim1_keepdim x) (Fin (real n))"

definition minimum_loss :: "tensor \<Rightarrow> nat \<Rightarrow> py_error + fl" where
  "minimum_loss x n =
     (case matmul (tneg (transpose_t (sum_dim1_keepdim x))) (torch_log (true_p x n)) of
        Inl e \<Rightarrow> Inl e
      | Inr mm \<Rightarrow> item mm)"

section \<open>Reference definitions over the reals\<close>

text \<open>
  The specification's formulas, written over the real numbers: the sigmoid, the logit
  \<open>ln x - ln (1 - x)\<close>, the division of a vector by its sum, and the total
  log-likelihood of a vector of counts under a distribution. The theorems compare the
  program's array operations with them.
\<close>

definition sigmoid_r :: "real \<Rightarrow> real" where
  "sigmoid_r x = 1 / (1 + exp (- x))"

definition logit_r :: "real \<Rightarrow> real" where
  "logit_r x = ln x - ln (1 - x)"

definition normalize_r :: "real list \<Rightarrow> real list" where
  "normalize_r v = map (\<lambda>q. q / sum_list v) v"

definition log_likelihood :: "real list \<Rightarrow> real list \<Rightarrow> real" where
  "log_likelihood counts p = sum_list (map2 (\<lambda>c q. c * ln q) counts p)"

text \<open>Arrays whose entries are all finite: a matrix and a column of real numbers.\<close>

definition real_tensor :: "nat \<Rightarrow> nat \<Rightarrow> real list list \<Rightarrow> tensor" where
  "real_tensor r c xs = Tensor r c (map (map Fin) xs)"

definition real_column :: "real list \<Rightarrow> tensor" where
  "real_column v = Tensor (length v) 1 (map (\<lambda>x. [Fin x]) v)"

section \<open>Reference definitions for the training loop\<close>

text \<open>
  What the specification says of one iteration: a forward pass on the batch, the loss as the
  negated log-likelihood, its gradient, one optimizer step, and the loss recorded.
  \<open>recorded_loss p x\<close> is the loss of the parameter \<open>p\<close> on the batch \<open>x\<close>, and
  \<open>run_steps \<dots> st p k\<close> is the optimizer state and the parameter after \<open>k\<close> optimizer
  steps from \<open>(st, p)\<close>, each on the gradient at the current parameter alone.
\<close>

definition recorded_loss :: "tensor \<Rightarrow> tensor \<Rightarrow> py_error + fl" where
  "recorded_loss p x =
     (case forward \<lparr>s = p, s_grad = None\<rparr> x of
        Inl e \<Rightarrow> Inl e
      | Inr ((p_pred, _), _) \<Rightarrow> item (tneg p_pred))"

fun run_steps ::
  "(tensor \<Rightarrow> tensor \<Rightarrow> tensor) \<Rightarrow> ('o \<Rightarrow> tensor \<Rightarrow> tensor \<Rightarrow> 'o \<times> tensor) \<Rightarrow> tensor \<Rightarrow>
   'o \<Rightarrow> tensor \<Rightarrow> nat \<Rightarrow> 'o \<times> tensor" where
  "run_steps grad_loss adam x st p 0 = (st, p)"
| "run_steps grad_loss adam x st p (Suc k) =
     run_steps grad_loss adam x (fst (adam st p (grad_loss p x)))
       (snd (adam st p (grad_loss p x))) k"

text \<open>An optimizer updates a parameter in place: the shape of the parameter stays.\<close>

definition keeps_shape :: "('o \<Rightarrow> tensor \<Rightarrow> tensor \<Rightarrow> 'o \<times> tensor) \<Rightarrow> bool" where
  "keeps_shape adam \<longleftrightarrow>
     (\<forall>st p g. nrows (snd (adam st p g)) = nrows p \<and> ncols (snd (adam st p g)) = ncols p)"

text \<open>
  The state in which an iteration starts: the parameter is a column with as many rows as
  the batch, and no gradient is stored.
\<close>

definition ready :: "tensor \<Rightarrow> 'o trainer \<Rightarrow> bool" where
  "ready x t \<longleftrightarrow>
     nrows (s (model t)) = nrows x \<and> ncols (s (model t)) = 1 \<and> s_grad (model t) = None"

text \<open>One entry of \<open>logit\<close>.\<close>

definition flogit :: "fl \<Rightarrow> fl" where
  "flogit v = fsub (flog v) (flog (fsub (Fin 1) v))"

section \<open>Reference definitions for the corpus\<close>

text \<open>
  The matrix whose column \<open>j\<close> is the one-hot column of the index \<open>idxs ! j\<close>, and the
  number of occurrences of each of the \<open>V\<close> indices in \<open>idxs\<close>.
\<close>

definition index_matrix :: "nat \<Rightarrow> nat list \<Rightarrow> tensor" where
  "index_matrix V idxs =
     Tensor V (length idxs) (map (\<lambda>k. map (\<lambda>i. if k = i then Fin 1 else Fin 0) idxs) [0..<V])"

definition counts :: "nat \<Rightarrow> nat list \<Rightarrow> real list" where
  "counts V idxs = map (\<lambda>k. real (count_list idxs k)) [0..<V]"

text \<open>
  The theoretical minimum loss of the specification: the negative log-likelihood of the
  counts \<open>cs\<close> under the empirical frequencies \<open>cs / n\<close>. A symbol that does not occur has
  count 0 and contributes nothing to the sum.
\<close>

definition theoretical_minimum :: "real list \<Rightarrow> real \<Rightarrow> real" where
  "theoretical_minimum cs n = - log_likelihood cs (map (\<lambda>c. c / n) cs)"

section \<open>Properties of the encoder\<close>

lemma list_index_None: "list_index vs t = None \<longleftrightarrow> t \<notin> set vs"
  by (induction vs) auto

lemma list_index_Some:
  "list_index vs t = Some i \<Longrightarrow> i < length vs \<and> vs ! i = t \<and> (\<forall>j<i. vs ! j \<noteq> t)"
proof (induction vs arbitrary: i)
  case Nil
  then show ?case by simp
next
  case (Cons v vs)
  show ?case
  proof (cases "v = t")
    case True
    with Cons.prems show ?thesis by simp
  next
    case False
    with Cons.prems obtain k where k: "list_index vs t = Some k" "i = Suc k"
      by auto
    from Cons.IH [OF k(1)] have ih: "k < length vs" "vs ! k = t" "\<forall>j<k. vs ! j \<noteq> t"
      by auto
    have "\<forall>j<Suc k. (v # vs) ! j \<noteq> t"
    proof (intro allI impI)
      fix j assume "j < Suc k"
      then show "(v # vs) ! j \<noteq> t"
        using False ih(3) by (cases j) auto
    qed
    with ih k show ?thesis by simp
  qed
qed

lemma set_item_zeros_column:
  assumes "i < n"
  shows "set_item (np_zeros n 1) (int i) 0 (Fin 1) = Inr (unit_column n i)"
proof -
  have "(replicate n [Fin 0])[i := [Fin 1]] = map (\<lambda>k. [if k = i then Fin 1 else Fin 0]) [0..<n]"
    using assms by (intro nth_equalityI) (auto simp: nth_list_update)
  with assms show ?thesis
    by (simp add: set_item_def np_index_def np_zeros_def unit_column_def)
qed

lemma onehot_fallback:
  assumes "vocab \<noteq> []" and "token \<notin> set vocab"
  shows "onehot vocab token
           = Inr (unit_column (length vocab) (length vocab - 1))"
proof -
  have none: "list_index vocab token = None"
    using assms(2) by (simp add: list_index_None)
  from assms(1) have pos: "0 < length vocab" by simp
  then have eq: "int (length vocab) - 1 = int (length vocab - 1)"
    by linarith
  have idx: "onehot_idx vocab token = int (length vocab - 1)"
    unfolding onehot_idx_def none option.case by (rule eq)
  from pos have lt: "length vocab - 1 < length vocab" by linarith
  show ?thesis
    unfolding onehot_def idx by (rule set_item_zeros_column [OF lt])
qed

text \<open>
  C4. For a token that occurs in the vocabulary, \<open>onehot\<close> returns the column of length
  \<open>V\<close> with 1.0 at the token's index (its first position in the vocabulary) and 0.0 in every
  other row.
\<close>

theorem onehot_present:
  assumes "token \<in> set vocab"
  shows "\<exists>i<length vocab. vocab ! i = token \<and> (\<forall>j<i. vocab ! j \<noteq> token) \<and>
           onehot vocab token = Inr (unit_column (length vocab) i)"
proof -
  from assms obtain i where i: "list_index vocab token = Some i"
    using list_index_None [of vocab token] by (cases "list_index vocab token") auto
  note p = list_index_Some [OF i]
  have "onehot vocab token = Inr (unit_column (length vocab) i)"
    using p set_item_zeros_column [of i "length vocab"]
    by (simp add: onehot_def onehot_idx_def i)
  with p show ?thesis by blast
qed

theorem onehot_present_witness:
  "onehot [Some ''a'', Some ''b'', None] (Some ''b'')
     = Inr (Tensor 3 1 [[Fin 0], [Fin 1], [Fin 0]])"
  using onehot_present [of "Some ''b''" "[Some ''a'', Some ''b'', None]"]
  by (auto simp: unit_column_def less_Suc_eq upt_conv_Cons)

text \<open>
  C5, as stated: for any token absent from the vocabulary \<open>onehot\<close> raises no error. The
  empty vocabulary refutes it: every token is absent from it, the fallback index is
  \<open>len(vocabulary) - 1 = -1\<close>, and the write into the array of shape \<open>(0, 1)\<close> raises
  IndexError.
\<close>

theorem onehot_absent_empty_vocabulary_raises:
  "onehot ([] :: string option list) (Some ''a'') = Inl IndexError"
  by (simp add: onehot_def onehot_idx_def set_item_def np_index_def np_zeros_def)

text \<open>
  C5, amended: for a non-empty vocabulary and a token absent from it, \<open>onehot\<close> raises no
  error and returns the column whose only 1.0 is at the last vocabulary position \<open>V - 1\<close>,
  the sentinel's.
\<close>

theorem onehot_absent:
  assumes "vocab \<noteq> []" and "token \<notin> set vocab"
  shows "onehot vocab token
           = Inr (unit_column (length vocab) (length vocab - 1))"
  using assms by (rule onehot_fallback)

theorem onehot_absent_witness:
  "onehot [Some ''a'', Some ''b'', None] (Some ''!'')
     = Inr (Tensor 3 1 [[Fin 0], [Fin 0], [Fin 1]])"
  using onehot_absent [of "[Some ''a'', Some ''b'', None]" "Some ''!''"]
  by (simp add: unit_column_def upt_conv_Cons)

text \<open>
  C9. For a non-empty vocabulary and any token, the index at which \<open>onehot\<close> writes lies
  in \<open>0..V-1\<close>; when the lookup fails it is \<open>V - 1\<close>; and the write succeeds.
\<close>

theorem onehot_idx_in_bounds:
  assumes "vocab \<noteq> []"
  shows "0 \<le> onehot_idx vocab token \<and>
         onehot_idx vocab token < int (length vocab) \<and>
         (list_index vocab token = None \<longrightarrow>
            onehot_idx vocab token = int (length vocab) - 1) \<and>
         (\<exists>e. onehot vocab token = Inr e)"
proof (cases "list_index vocab token")
  case None
  then have "token \<notin> set vocab" by (simp add: list_index_None)
  then have "\<exists>e. onehot vocab token = Inr e"
    using onehot_fallback [OF assms] by blast
  with None assms show ?thesis by (simp add: onehot_idx_def)
next
  case (Some i)
  note p = list_index_Some [OF Some]
  then have "onehot vocab token = Inr (unit_column (length vocab) i)"
    using set_item_zeros_column [of i "length vocab"]
    by (simp add: onehot_def onehot_idx_def Some)
  with p Some show ?thesis by (simp add: onehot_idx_def)
qed

theorem onehot_idx_in_bounds_witness:
  "[Some ''a'', None] \<noteq> [] \<and> list_index [Some ''a'', None] (Some ''z'') = None \<and>
   0 \<le> onehot_idx [Some ''a'', None] (Some ''z'') \<and>
   onehot_idx [Some ''a'', None] (Some ''z'') < 2 \<and>
   onehot_idx [Some ''a'', None] (Some ''z'') = 2 - 1 \<and>
   (\<exists>e. onehot [Some ''a'', None] (Some ''z'') = Inr e)"
proof -
  have h: "[Some ''a'', None] \<noteq> []" by simp
  have n: "list_index [Some ''a'', None] (Some ''z'') = None" by simp
  from onehot_idx_in_bounds [OF h, of "Some ''z''"] n h show ?thesis by simp
qed

section \<open>Arithmetic on finite entries\<close>

lemma fsum_Fin: "fsum (map Fin xs) = Fin (sum_list xs)"
  by (induction xs) (simp_all add: fsum_def)

lemma sigmoid_r_pos: "0 < sigmoid_r x"
  by (simp add: sigmoid_r_def add_pos_pos)

lemma sigmoid_r_lt_1: "sigmoid_r x < 1"
proof -
  have "0 < exp (- x)" by simp
  then have "0 < 1 + exp (- x)" by linarith
  then show ?thesis by (simp add: sigmoid_r_def pos_divide_less_eq)
qed

lemma logit_sigmoid_r: "logit_r (sigmoid_r x) = x"
proof -
  have e: "0 < 1 + exp (- x)" by (simp add: add_pos_pos)
  have "1 - sigmoid_r x = exp (- x) / (1 + exp (- x))"
    using e by (simp add: sigmoid_r_def field_simps)
  then have "logit_r (sigmoid_r x) = ln (1 / (1 + exp (- x))) - ln (exp (- x) / (1 + exp (- x)))"
    by (simp add: logit_r_def sigmoid_r_def)
  also have "\<dots> = (ln 1 - ln (1 + exp (- x))) - (ln (exp (- x)) - ln (1 + exp (- x)))"
  proof -
    have "1 + exp (- x) \<noteq> 0" using e by simp
    then show ?thesis by (simp add: ln_div)
  qed
  finally show ?thesis by simp
qed

lemma sigmoid_logit_r:
  assumes "0 < p" "p < 1"
  shows "sigmoid_r (logit_r p) = p"
proof -
  have "exp (- (ln p - ln (1 - p))) = exp (ln (1 - p)) / exp (ln p)"
    by (simp add: exp_diff)
  also have "\<dots> = (1 - p) / p" using assms by simp
  finally have "exp (- logit_r p) = (1 - p) / p" by (simp add: logit_r_def)
  then have "1 + exp (- logit_r p) = 1 / p" using assms by (simp add: field_simps)
  then show ?thesis using assms by (simp add: sigmoid_r_def)
qed

lemma map2_same: "map2 f (map g xs) (map h xs) = map (\<lambda>x. f (g x) (h x)) xs"
  by (induction xs) simp_all

lemma tmap_real:
  assumes "\<And>v. v \<in> set (concat xs) \<Longrightarrow> f (Fin v) = Fin (g v)"
  shows "tmap f (real_tensor r c xs) = real_tensor r c (map (map g) xs)"
  unfolding tmap_def real_tensor_def using assms by auto

lemma tzip_tmap_same: "tzip f (tmap g x) (tmap h x) = tmap (\<lambda>v. f (g v) (h v)) x"
proof -
  have "map2 (map2 f) (map (map g) xs) (map (map h) xs) = map (map (\<lambda>v. f (g v) (h v))) xs"
    for xs
    by (induction xs) (simp_all add: map2_same)
  then show ?thesis by (simp add: tzip_def tmap_def)
qed

lemma tmap_tmap: "tmap f (tmap g x) = tmap (\<lambda>v. f (g v)) x"
  by (simp add: tmap_def comp_def)

lemma logit_tmap: "logit x = tmap (\<lambda>v. fsub (flog v) (flog (fsub (Fin 1) v))) x"
  by (simp add: logit_def np_log_def scalar_sub_def tzip_tmap_same tmap_tmap)

lemma ln2_ge_half: "1 / 2 \<le> ln (2 :: real)"
proof -
  have "ln (1 / 2 :: real) \<le> 1 / 2 - 1" by (rule ln_le_minus_one) simp
  moreover have "ln (1 / 2 :: real) = - ln 2" by (simp add: ln_div)
  ultimately show ?thesis by simp
qed

lemma sigmoid_lo_neg: "sigmoid_lo < 0"
  using ln2_ge_half by (simp add: sigmoid_lo_def)

lemma sigmoid_hi_gt_1: "1 < sigmoid_hi"
  using ln2_ge_half by (simp add: sigmoid_hi_def)

lemma sigmoid_lo_ln: "sigmoid_lo = ln (1 / 2 ^ 128)"
proof -
  have "ln ((2 :: real) ^ 128) = real (128 :: nat) * ln 2" by (rule ln_realpow)
  then show ?thesis unfolding sigmoid_lo_def by (simp add: ln_div)
qed

lemma sigmoid_hi_ln: "sigmoid_hi = ln (2 ^ 24)"
proof -
  have "ln ((2 :: real) ^ 24) = real (24 :: nat) * ln 2" by (rule ln_realpow)
  then show ?thesis unfolding sigmoid_hi_def by simp
qed

lemma sigmoid_f32_range:
  assumes "sigmoid_lo < a" and "a < sigmoid_hi"
  shows "sigmoid_f32 a = sigmoid_r a"
  using assms by (simp add: sigmoid_f32_def sigmoid_r_def)

lemma sigmoid_f32_pos:
  assumes "sigmoid_lo < a"
  shows "0 < sigmoid_f32 a"
proof -
  have "0 < 1 / (1 + exp (- a))" by (simp add: add_pos_pos)
  with assms show ?thesis by (simp add: sigmoid_f32_def)
qed

lemma sigmoid_f32_le_1: "sigmoid_f32 a \<le> 1"
proof -
  have "0 < exp (- a)" by simp
  then have "0 < 1 + exp (- a)" by linarith
  then have "1 / (1 + exp (- a)) \<le> 1" by (simp add: pos_divide_le_eq)
  then show ?thesis by (simp add: sigmoid_f32_def)
qed

lemma logit_r_ln:
  assumes "0 < p" and "p < 1"
  shows "logit_r p = ln (p / (1 - p))"
  using assms by (simp add: logit_r_def ln_div)

lemma sigmoid_f32_logit_close:
  assumes "0 < p" and "p < 1"
  shows "\<bar>sigmoid_f32 (logit_r p) - p\<bar> \<le> 1 / 2 ^ 24"
proof -
  from assms have q: "0 < p / (1 - p)" by simp
  consider (lo) "logit_r p \<le> sigmoid_lo" | (hi) "sigmoid_hi \<le> logit_r p"
    | (mid) "sigmoid_lo < logit_r p" "logit_r p < sigmoid_hi"
    by linarith
  then show ?thesis
  proof cases
    case lo
    then have "ln (p / (1 - p)) \<le> ln (1 / 2 ^ 128)"
      by (simp only: logit_r_ln [OF assms] sigmoid_lo_ln)
    then have "p / (1 - p) \<le> 1 / 2 ^ 128"
      using q by (subst (asm) ln_le_cancel_iff) simp_all
    then have "p \<le> (1 - p) / 2 ^ 128" using assms by (simp add: field_simps)
    also have "\<dots> \<le> 1 / 2 ^ 128" using assms by (simp add: divide_right_mono)
    also have "\<dots> \<le> (1 :: real) / 2 ^ 24" by simp
    finally have "p \<le> 1 / 2 ^ 24" .
    moreover from lo have "sigmoid_f32 (logit_r p) = 0" by (simp add: sigmoid_f32_def)
    ultimately show ?thesis using assms by simp
  next
    case hi
    then have "ln (2 ^ 24) \<le> ln (p / (1 - p))"
      by (simp only: logit_r_ln [OF assms] sigmoid_hi_ln)
    then have "2 ^ 24 \<le> p / (1 - p)"
      using q by (subst (asm) ln_le_cancel_iff) simp_all
    then have "2 ^ 24 * (1 - p) \<le> p" using assms by (simp add: field_simps)
    then have "1 - p \<le> p / 2 ^ 24" by (simp add: field_simps)
    also have "\<dots> \<le> 1 / 2 ^ 24" using assms by (simp add: divide_right_mono)
    finally have "1 - p \<le> 1 / 2 ^ 24" .
    moreover from hi sigmoid_lo_neg sigmoid_hi_gt_1 have "sigmoid_f32 (logit_r p) = 1"
      by (simp add: sigmoid_f32_def)
    ultimately show ?thesis using assms by simp
  next
    case mid
    then have "sigmoid_f32 (logit_r p) = p"
      by (simp add: sigmoid_f32_range sigmoid_logit_r [OF assms])
    then show ?thesis by simp
  qed
qed

lemma torch_sigmoid_real:
  "torch_sigmoid (real_tensor r c xs) = real_tensor r c (map (map sigmoid_f32) xs)"
  unfolding torch_sigmoid_def by (rule tmap_real) simp

lemma torch_sigmoid_real_range:
  assumes "list_all (list_all (\<lambda>x. sigmoid_lo < x \<and> x < sigmoid_hi)) xs"
  shows "torch_sigmoid (real_tensor r c xs) = real_tensor r c (map (map sigmoid_r) xs)"
proof -
  have "map (map sigmoid_f32) xs = map (map sigmoid_r) xs"
    using assms by (auto simp: list_all_iff sigmoid_f32_range)
  then show ?thesis by (simp only: torch_sigmoid_real)
qed

lemma logit_real:
  assumes "list_all (list_all (\<lambda>p. 0 < p \<and> p < 1)) ps"
  shows "logit (real_tensor r c ps) = real_tensor r c (map (map logit_r) ps)"
  unfolding logit_tmap
proof (rule tmap_real)
  fix v assume "v \<in> set (concat ps)"
  with assms have "0 < v \<and> v < 1" by (auto simp: list_all_iff)
  then show "fsub (flog (Fin v)) (flog (fsub (Fin 1) (Fin v))) = Fin (logit_r v)"
    by (simp add: fsub_def logit_r_def)
qed

lemma torch_sum_real: "torch_sum (real_tensor r c xs) = Fin (sum_list (concat xs))"
proof -
  have "concat (map (map Fin) xs) = map Fin (concat xs)"
    by (simp add: map_concat)
  then show ?thesis by (simp add: torch_sum_def real_tensor_def fsum_Fin)
qed

lemma div_scalar_real:
  assumes "c \<noteq> 0"
  shows "div_scalar (real_tensor r k xs) (Fin c) = real_tensor r k (map (map (\<lambda>v. v / c)) xs)"
  unfolding div_scalar_def using assms by (intro tmap_real) simp

lemma sum_list_concat_div:
  "sum_list (concat (map (map (\<lambda>v. v / c)) xs)) = sum_list (concat xs) / (c::real)"
proof -
  have row: "sum_list (map (\<lambda>v. v / c) row) = sum_list row / c" for row :: "real list"
    by (induction row) (simp_all add: add_divide_distrib)
  show ?thesis
    by (induction xs) (simp_all add: row add_divide_distrib)
qed

lemma sum_list_nonneg_ge:
  assumes "list_all (\<lambda>v. 0 \<le> v) xs" and "q \<in> set xs"
  shows "q \<le> sum_list (xs :: real list)"
  using assms
proof (induction xs)
  case Nil
  then show ?case by simp
next
  case (Cons x xs)
  have "0 \<le> sum_list xs"
    using Cons.prems(1) by (intro sum_list_nonneg) (auto simp: list_all_iff)
  with Cons show ?case by auto
qed

lemma normalize_real:
  assumes "sum_list (concat xs) \<noteq> 0"
  shows "normalize_t (real_tensor r c xs)
           = real_tensor r c (map (map (\<lambda>v. v / sum_list (concat xs))) xs)"
  by (simp add: normalize_t_def torch_sum_real div_scalar_real [OF assms])

lemma normalize_real_sum:
  assumes "sum_list (concat xs) \<noteq> 0"
  shows "torch_sum (normalize_t (real_tensor r c xs)) = Fin 1"
  using assms by (simp add: normalize_real torch_sum_real sum_list_concat_div)

lemma concat_all: "list_all P (concat xs) \<longleftrightarrow> list_all (list_all P) xs"
  by (induction xs) simp_all

lemma normalize_nonneg_sum:
  assumes "list_all (list_all (\<lambda>v. 0 \<le> v)) xs" and "\<not> list_all (list_all (\<lambda>v. v = 0)) xs"
  shows "torch_sum (normalize_t (real_tensor r c xs)) = Fin 1"
proof -
  from assms(1) have nn: "list_all (\<lambda>v. 0 \<le> v) (concat xs)" by (simp add: concat_all)
  from assms(2) have "\<not> list_all (\<lambda>v. v = 0) (concat xs)" by (simp add: concat_all)
  then obtain q where q: "q \<in> set (concat xs)" "q \<noteq> 0"
    unfolding list_all_iff by blast
  with nn have "0 < q" unfolding list_all_iff by force
  moreover have "q \<le> sum_list (concat xs)" using nn q(1) by (rule sum_list_nonneg_ge)
  ultimately have "sum_list (concat xs) \<noteq> 0" by linarith
  then show ?thesis by (rule normalize_real_sum)
qed

lemma sigmoid_distribution:
  assumes "concat ss \<noteq> []" and "list_all (list_all (\<lambda>v. sigmoid_lo < v)) ss"
  defines "qs \<equiv> map (map sigmoid_f32) ss"
  defines "ps \<equiv> map (map (\<lambda>v. v / sum_list (concat qs))) qs"
  shows "normalize_t (torch_sigmoid (real_tensor r c ss)) = real_tensor r c ps \<and>
         list_all (list_all (\<lambda>p. 0 < p \<and> p \<le> 1)) ps \<and>
         torch_sum (normalize_t (torch_sigmoid (real_tensor r c ss))) = Fin 1"
proof (intro conjI)
  have cq: "concat qs = map sigmoid_f32 (concat ss)"
    by (simp add: qs_def map_concat)
  have "list_all (\<lambda>v. sigmoid_lo < v) (concat ss)"
    using assms(2) by (simp add: concat_all)
  then have pos: "list_all (\<lambda>v. 0 < v) (concat qs)"
    by (simp add: cq list_all_iff sigmoid_f32_pos)
  then have nn: "list_all (\<lambda>v. 0 \<le> v) (concat qs)"
    by (auto simp: list_all_iff intro: less_imp_le)
  from assms(1) obtain v where "v \<in> set (concat qs)"
    by (cases "concat ss") (auto simp: cq)
  then have "0 < v" and "v \<le> sum_list (concat qs)"
    using pos sum_list_nonneg_ge [OF nn] unfolding list_all_iff by blast+
  then have S: "0 < sum_list (concat qs)" by linarith
  then have ne: "sum_list (concat qs) \<noteq> 0" by simp
  show "normalize_t (torch_sigmoid (real_tensor r c ss)) = real_tensor r c ps"
    unfolding torch_sigmoid_real ps_def using ne unfolding qs_def by (rule normalize_real)
  show "torch_sum (normalize_t (torch_sigmoid (real_tensor r c ss))) = Fin 1"
    using ne by (simp add: torch_sigmoid_real normalize_real_sum qs_def)
  have "0 < q / sum_list (concat qs) \<and> q / sum_list (concat qs) \<le> 1"
    if "q \<in> set (concat qs)" for q
  proof -
    from that pos have "0 < q" by (auto simp: list_all_iff)
    moreover have "q \<le> sum_list (concat qs)" using nn that by (rule sum_list_nonneg_ge)
    ultimately show ?thesis using S by simp
  qed
  then have "list_all (\<lambda>p. 0 < p \<and> p \<le> 1) (concat ps)"
    by (auto simp: ps_def map_concat list_all_iff)
  then show "list_all (list_all (\<lambda>p. 0 < p \<and> p \<le> 1)) ps"
    by (simp add: concat_all)
qed

lemma real_column_tensor: "real_column v = real_tensor (length v) 1 (map (\<lambda>x. [x]) v)"
  by (simp add: real_column_def real_tensor_def)

lemma concat_singletons: "concat (map (\<lambda>x. [x]) v) = v"
  by (induction v) simp_all

lemma torch_sigmoid_column: "torch_sigmoid (real_column v) = real_column (map sigmoid_f32 v)"
  by (simp add: real_column_tensor torch_sigmoid_real comp_def)

lemma normalize_column:
  assumes "v = [] \<or> sum_list v \<noteq> 0"
  shows "normalize_t (real_column v) = real_column (normalize_r v)"
proof (cases "v = []")
  case True
  then show ?thesis
    by (simp add: normalize_t_def div_scalar_def tmap_def real_column_def normalize_r_def)
next
  case False
  with assms have "sum_list (concat (map (\<lambda>x. [x]) v)) \<noteq> 0"
    by (simp add: concat_singletons)
  from normalize_real [OF this, of "length v" 1] show ?thesis
    by (simp add: real_column_tensor concat_singletons normalize_r_def comp_def)
qed

lemma torch_log_column:
  assumes "list_all (\<lambda>q. 0 < q) v"
  shows "torch_log (real_column v) = real_column (map ln v)"
proof -
  have "tmap flog (real_tensor (length v) 1 (map (\<lambda>x. [x]) v))
          = real_tensor (length v) 1 (map (map ln) (map (\<lambda>x. [x]) v))"
    using assms by (intro tmap_real) (auto simp: concat_singletons list_all_iff)
  then show ?thesis
    by (simp add: torch_log_def real_column_tensor comp_def)
qed

lemma sum_dim1_keepdim_real:
  assumes "length xs = r"
  shows "sum_dim1_keepdim (real_tensor r c xs) = real_column (map sum_list xs)"
  using assms by (simp add: sum_dim1_keepdim_def real_tensor_def real_column_def fsum_Fin comp_def)

lemma transpose_column: "transpose_t (real_column v) = Tensor 1 (length v) [map Fin v]"
  by (simp add: transpose_t_def real_column_def comp_def)

lemma map2_fmul_Fin: "map2 fmul (map Fin a) (map Fin b) = map Fin (map2 (*) a b)"
  by (induction a arbitrary: b) (auto simp: zip_Cons1 split: list.splits)

lemma matmul_row_column:
  assumes "length b = n"
  shows "matmul (Tensor 1 n [map Fin a]) (real_column b)
           = Inr (real_tensor 1 1 [[sum_list (map2 (*) a b)]])"
proof -
  have "map (\<lambda>rb. rb ! 0) (map (\<lambda>x. [Fin x]) b) = map Fin b"
    by simp
  then have "fsum (map2 fmul (map Fin a) (map (\<lambda>rb. rb ! 0) (map (\<lambda>x. [Fin x]) b)))
          = Fin (sum_list (map2 (*) a b))"
    by (simp only: map2_fmul_Fin fsum_Fin)
  with assms show ?thesis
    by (simp add: matmul_def real_column_def real_tensor_def)
qed

lemma map2_mult_ln: "map2 (*) c (map ln p) = map2 (\<lambda>c q. c * ln q) c (p :: real list)"
  by (induction c arbitrary: p) (auto simp: zip_Cons1 split: list.splits)

lemma sum_sigmoid_pos:
  assumes "list_all (\<lambda>v. sigmoid_lo < v) sv" and "sv \<noteq> []"
  shows "0 < sum_list (map sigmoid_f32 sv)"
proof -
  from assms(2) obtain a as where c: "sv = a # as" by (cases sv) auto
  have "list_all (\<lambda>v. 0 \<le> v) (map sigmoid_f32 sv)"
    using assms(1) by (auto simp: list_all_iff intro: less_imp_le sigmoid_f32_pos)
  then have "sigmoid_f32 a \<le> sum_list (map sigmoid_f32 sv)"
    by (rule sum_list_nonneg_ge) (simp add: c)
  moreover have "0 < sigmoid_f32 a"
    using assms(1) by (simp add: c sigmoid_f32_pos)
  ultimately show ?thesis by linarith
qed

lemma normalize_r_sigmoid_pos:
  assumes "list_all (\<lambda>v. sigmoid_lo < v) sv"
  shows "list_all (\<lambda>q. 0 < q) (normalize_r (map sigmoid_f32 sv))"
proof (cases "sv = []")
  case True
  then show ?thesis by (simp add: normalize_r_def)
next
  case False
  from sum_sigmoid_pos [OF assms False] assms show ?thesis
    by (auto simp: normalize_r_def list_all_iff sigmoid_f32_pos)
qed

lemma sum_sigmoid_nonzero:
  assumes "list_all (\<lambda>v. sigmoid_lo < v) sv"
  shows "map sigmoid_f32 sv = [] \<or> sum_list (map sigmoid_f32 sv) \<noteq> 0"
  using sum_sigmoid_pos [OF assms] by (cases "sv = []") auto

lemma forward_real:
  assumes "s self = real_column sv" and "length xs = length sv"
    and "list_all (\<lambda>v. sigmoid_lo < v) sv"
  shows "forward self (real_tensor (length sv) T xs)
           = Inr ((real_tensor 1 1
                     [[log_likelihood (map sum_list xs) (normalize_r (map sigmoid_f32 sv))]],
                   real_column (normalize_r (map sigmoid_f32 sv))), self)"
proof -
  let ?p = "normalize_r (map sigmoid_f32 sv)"
  have p: "normalize_t (torch_sigmoid (s self)) = real_column ?p"
    by (simp add: assms(1) torch_sigmoid_column
        normalize_column [OF sum_sigmoid_nonzero [OF assms(3)]])
  have lp: "torch_log (real_column ?p) = real_column (map ln ?p)"
    by (rule torch_log_column [OF normalize_r_sigmoid_pos [OF assms(3)]])
  have len: "length (map ln ?p) = length (map sum_list xs)"
    by (simp add: normalize_r_def assms(2))
  have "matmul (transpose_t (sum_dim1_keepdim (real_tensor (length sv) T xs)))
          (torch_log (real_column ?p))
        = Inr (real_tensor 1 1 [[sum_list (map2 (*) (map sum_list xs) (map ln ?p))]])"
    unfolding lp sum_dim1_keepdim_real [OF assms(2)] transpose_column
    by (rule matmul_row_column [OF len])
  then show ?thesis
    by (simp add: forward_def p Let_def log_likelihood_def map2_mult_ln)
qed

section \<open>Properties of the numeric functions\<close>

lemma sigmoid_logit_close_tensor:
  assumes "list_all (list_all (\<lambda>p. 0 < p \<and> p < 1)) ps"
  shows "list_all2 (list_all2 (\<lambda>q p. \<bar>q - p\<bar> \<le> 1 / 2 ^ 24))
           (map (map sigmoid_f32) (map (map logit_r) ps)) ps"
  unfolding map_map list_all2_map1 list_all2_same comp_def
proof (intro ballI)
  fix row p assume "row \<in> set ps" and "p \<in> set row"
  with assms have "0 < p" and "p < 1" by (auto simp: list_all_iff)
  then show "\<bar>sigmoid_f32 (logit_r p) - p\<bar> \<le> 1 / 2 ^ 24"
    by (rule sigmoid_f32_logit_close)
qed

text \<open>
  C7. \<open>logit\<close> and \<open>sigmoid\<close> are inverse to each other up to floating-point tolerance.
  \<open>logit(sigmoid(x)) = x\<close> for entries between the two limits of the sigmoid, a range that
  contains \<open>(0,1)\<close>. For entries \<open>p\<close> in \<open>(0,1)\<close>, \<open>logit(p) = ln p - ln (1 - p)\<close>, and
  \<open>sigmoid(logit(p))\<close> differs from \<open>p\<close> by at most \<open>2 ^ - 24\<close>; it is \<open>p\<close> itself when
  \<open>logit(p)\<close> lies between the two limits.
\<close>

theorem logit_sigmoid_roundtrip:
  "sigmoid_lo < 0 \<and> 1 < sigmoid_hi \<and>
   (list_all (list_all (\<lambda>x. sigmoid_lo < x \<and> x < sigmoid_hi)) xs \<longrightarrow>
      logit (torch_sigmoid (real_tensor r c xs)) = real_tensor r c xs) \<and>
   (list_all (list_all (\<lambda>p. 0 < p \<and> p < 1)) ps \<longrightarrow>
      logit (real_tensor r c ps) = real_tensor r c (map (map (\<lambda>x. ln x - ln (1 - x))) ps) \<and>
      (\<exists>qs. torch_sigmoid (logit (real_tensor r c ps)) = real_tensor r c qs \<and>
            list_all2 (list_all2 (\<lambda>q p. \<bar>q - p\<bar> \<le> 1 / 2 ^ 24)) qs ps) \<and>
      (list_all (list_all (\<lambda>p. sigmoid_lo < ln p - ln (1 - p) \<and>
                               ln p - ln (1 - p) < sigmoid_hi)) ps \<longrightarrow>
         torch_sigmoid (logit (real_tensor r c ps)) = real_tensor r c ps))"
proof (intro conjI impI)
  show "sigmoid_lo < 0" by (rule sigmoid_lo_neg)
  show "1 < sigmoid_hi" by (rule sigmoid_hi_gt_1)
next
  assume x: "list_all (list_all (\<lambda>x. sigmoid_lo < x \<and> x < sigmoid_hi)) xs"
  have "list_all (list_all (\<lambda>p. 0 < p \<and> p < 1)) (map (map sigmoid_r) xs)"
    by (simp add: list_all_iff sigmoid_r_pos sigmoid_r_lt_1)
  then have "logit (torch_sigmoid (real_tensor r c xs))
               = real_tensor r c (map (map logit_r) (map (map sigmoid_r) xs))"
    by (simp add: torch_sigmoid_real_range [OF x] logit_real)
  also have "map (map logit_r) (map (map sigmoid_r) xs) = xs"
    by (simp add: comp_def logit_sigmoid_r)
  finally show "logit (torch_sigmoid (real_tensor r c xs)) = real_tensor r c xs" .
next
  assume a: "list_all (list_all (\<lambda>p. 0 < p \<and> p < 1)) ps"
  show "logit (real_tensor r c ps) = real_tensor r c (map (map (\<lambda>x. ln x - ln (1 - x))) ps)"
    using logit_real [OF a, of r c] by (simp add: logit_r_def [abs_def])
  have sl: "torch_sigmoid (logit (real_tensor r c ps))
              = real_tensor r c (map (map sigmoid_f32) (map (map logit_r) ps))"
    by (simp only: logit_real [OF a] torch_sigmoid_real)
  with sigmoid_logit_close_tensor [OF a]
  show "\<exists>qs. torch_sigmoid (logit (real_tensor r c ps)) = real_tensor r c qs \<and>
             list_all2 (list_all2 (\<lambda>q p. \<bar>q - p\<bar> \<le> 1 / 2 ^ 24)) qs ps"
    by blast
  assume b: "list_all (list_all (\<lambda>p. sigmoid_lo < ln p - ln (1 - p) \<and>
                                    ln p - ln (1 - p) < sigmoid_hi)) ps"
  have "map (map sigmoid_f32) (map (map logit_r) ps) = map (map id) ps"
    unfolding map_map comp_def
  proof (intro map_cong refl)
    fix row p assume "row \<in> set ps" and "p \<in> set row"
    with a b have p: "0 < p" "p < 1" "sigmoid_lo < logit_r p" "logit_r p < sigmoid_hi"
      by (auto simp: list_all_iff logit_r_def)
    then show "sigmoid_f32 (logit_r p) = id p"
      by (simp add: sigmoid_f32_range sigmoid_logit_r)
  qed
  then show "torch_sigmoid (logit (real_tensor r c ps)) = real_tensor r c ps"
    by (simp add: sl)
qed

theorem logit_sigmoid_roundtrip_witness:
  "logit (torch_sigmoid (real_tensor 1 2 [[1 / 2, 3 / 4]])) = real_tensor 1 2 [[1 / 2, 3 / 4]] \<and>
   torch_sigmoid (logit (real_tensor 1 1 [[1 / 2]])) = real_tensor 1 1 [[1 / 2]]"
proof -
  have h1: "list_all (list_all (\<lambda>x. sigmoid_lo < x \<and> x < sigmoid_hi)) [[1 / 2, 3 / 4]]"
    using sigmoid_lo_neg sigmoid_hi_gt_1 by simp
  have h2: "list_all (list_all (\<lambda>p. 0 < p \<and> p < 1)) [[1 / 2 :: real]]" by simp
  have h3: "list_all (list_all (\<lambda>p. sigmoid_lo < ln p - ln (1 - p) \<and>
                                     ln p - ln (1 - p) < sigmoid_hi)) [[1 / 2 :: real]]"
    using sigmoid_lo_neg sigmoid_hi_gt_1 by simp
  show ?thesis
    using h1 h2 h3
      logit_sigmoid_roundtrip [where r = 1 and c = 2 and xs = "[[1 / 2, 3 / 4]]"
        and ps = "[[1 / 2]]"]
      logit_sigmoid_roundtrip [where r = 1 and c = 1 and xs = "[[1 / 2, 3 / 4]]"
        and ps = "[[1 / 2]]"]
    by blast
qed

lemma below_sigmoid_lo: "- 200 \<le> sigmoid_lo"
  using ln_2_less_1 by (simp add: sigmoid_lo_def)

lemma above_sigmoid_hi: "sigmoid_hi \<le> 30"
  using ln_2_less_1 by (simp add: sigmoid_hi_def)

lemma sigmoid_f32_minus_200: "sigmoid_f32 (- 200) = 0"
  using below_sigmoid_lo by (simp add: sigmoid_f32_def)

lemma sigmoid_f32_30: "sigmoid_f32 30 = 1"
proof -
  have "\<not> 30 \<le> sigmoid_lo" using sigmoid_lo_neg by simp
  then show ?thesis using above_sigmoid_hi by (simp add: sigmoid_f32_def)
qed

text \<open>
  C6, as stated: \<open>p = normalize(sigmoid(s))\<close> has all entries positive and sums to 1 for
  any finite \<open>s\<close>. Two parameters refute it. The parameter of \<open>Unigram(0)\<close> has no entries:
  then \<open>p\<close> has none, and its sum is 0. At the one-entry parameter \<open>[-200.0]\<close> the
  \<open>float32\<close> sigmoid is exactly 0.0, the sum is 0.0, and \<open>p = 0/0\<close> is NaN.
\<close>

theorem normalize_sigmoid_not_a_distribution:
  "torch_sum (normalize_t (torch_sigmoid (real_tensor 0 1 []))) \<noteq> Fin 1 \<and>
   normalize_t (torch_sigmoid (real_tensor 1 1 [[- 200]])) = Tensor 1 1 [[NaN]] \<and>
   torch_sum (normalize_t (torch_sigmoid (real_tensor 1 1 [[- 200]]))) = NaN"
  by (simp add: torch_sum_def normalize_t_def torch_sigmoid_def div_scalar_def tmap_def
      real_tensor_def fsum_def sigmoid_f32_minus_200)

text \<open>
  C6, amended: for every non-negative input that is not all zero, the entries of
  \<open>normalize(v)\<close> sum to 1; and for every finite \<open>s\<close> with at least one entry, all
  entries above the limit \<open>- 128 ln 2\<close> below which the \<open>float32\<close> sigmoid is 0.0,
  \<open>p = normalize(sigmoid(s))\<close> has all entries positive (and at most 1) and sums to 1.
\<close>

theorem normalize_sums_to_one:
  "(list_all (list_all (\<lambda>v. 0 \<le> v)) xs \<and> \<not> list_all (list_all (\<lambda>v. v = 0)) xs \<longrightarrow>
      torch_sum (normalize_t (real_tensor r c xs)) = Fin 1) \<and>
   (concat ss \<noteq> [] \<and> list_all (list_all (\<lambda>v. sigmoid_lo < v)) ss \<longrightarrow>
      (\<exists>ps. normalize_t (torch_sigmoid (real_tensor r c ss)) = real_tensor r c ps \<and>
            list_all (list_all (\<lambda>p. 0 < p \<and> p \<le> 1)) ps \<and>
            torch_sum (normalize_t (torch_sigmoid (real_tensor r c ss))) = Fin 1))"
  using normalize_nonneg_sum [where xs = xs and r = r and c = c]
    sigmoid_distribution [where ss = ss and r = r and c = c]
  by blast

theorem normalize_sums_to_one_witness:
  "torch_sum (normalize_t (real_tensor 2 1 [[1], [3]])) = Fin 1 \<and>
   torch_sum (normalize_t (torch_sigmoid (real_tensor 2 1 [[0], [5]]))) = Fin 1"
proof -
  have h1: "list_all (list_all (\<lambda>v. 0 \<le> v)) [[1], [3 :: real]] \<and>
            \<not> list_all (list_all (\<lambda>v. v = 0)) [[1], [3 :: real]]" by simp
  have h2: "concat [[0], [5 :: real]] \<noteq> [] \<and>
            list_all (list_all (\<lambda>v. sigmoid_lo < v)) [[0], [5]]"
    using sigmoid_lo_neg by simp
  show ?thesis
    using h1 h2
      normalize_sums_to_one [where xs = "[[1], [3]]" and ss = "[[0], [5]]" and r = 2 and c = 1]
    by blast
qed

text \<open>
  C1, as stated: for every parameter vector and every batch matrix, \<open>forward\<close> maps each
  entry of \<open>s\<close> through the sigmoid into \<open>(0,1)\<close> and returns the total log-likelihood. At
  the parameter \<open>[-200.0]\<close> the \<open>float32\<close> sigmoid is exactly 0.0, \<open>p\<close> is NaN and so is
  the returned value; at \<open>[30.0]\<close> the sigmoid is exactly 1.0; and a batch of three rows
  against a parameter of two entries raises RuntimeError in the matrix product.
\<close>

theorem forward_outside_sigmoid_range:
  "forward \<lparr>s = real_column [- 200], s_grad = None\<rparr> (real_tensor 1 1 [[1]])
     = Inr ((Tensor 1 1 [[NaN]], Tensor 1 1 [[NaN]]),
            \<lparr>s = real_column [- 200], s_grad = None\<rparr>) \<and>
   torch_sigmoid (real_column [30]) = real_column [1] \<and>
   forward \<lparr>s = real_column [0, 0], s_grad = None\<rparr> (real_tensor 3 1 [[1], [1], [1]])
     = Inl RuntimeError"
  by (simp add: forward_def Let_def matmul_def transpose_t_def sum_dim1_keepdim_def
      torch_log_def normalize_t_def div_scalar_def torch_sigmoid_def torch_sum_def tmap_def
      real_column_def real_tensor_def fsum_def sigmoid_f32_minus_200 sigmoid_f32_30)

text \<open>
  C1, amended: for a parameter column \<open>s\<close> of \<open>V\<close> real entries, all between the two
  limits of the \<open>float32\<close> sigmoid (\<open>- 128 ln 2\<close> and \<open>24 ln 2\<close>), and a batch matrix with
  \<open>V\<close> rows, \<open>forward\<close> computes \<open>p\<close> as the sigmoid of \<open>s\<close> (entries in \<open>(0,1)\<close>)
  divided by its sum, and returns the one-entry tensor holding the total log-likelihood,
  the sum over the symbols of the row count times \<open>ln p\<close>, together with \<open>p\<close>.
\<close>

theorem forward_log_likelihood:
  assumes "s self = real_column sv" and "length xs = length sv"
    and "list_all (\<lambda>v. sigmoid_lo < v \<and> v < sigmoid_hi) sv"
  shows "forward self (real_tensor (length sv) T xs)
           = Inr ((real_tensor 1 1
                     [[log_likelihood (map sum_list xs) (normalize_r (map sigmoid_r sv))]],
                   real_column (normalize_r (map sigmoid_r sv))), self) \<and>
         torch_sigmoid (s self) = real_column (map sigmoid_r sv) \<and>
         list_all (\<lambda>q. 0 < q \<and> q < 1) (map sigmoid_r sv)"
proof -
  have eq: "map sigmoid_f32 sv = map sigmoid_r sv"
    using assms(3) by (auto simp: list_all_iff sigmoid_f32_range)
  have lo: "list_all (\<lambda>v. sigmoid_lo < v) sv"
    using assms(3) by (auto simp: list_all_iff)
  from forward_real [OF assms(1,2) lo, of T] assms(1) show ?thesis
    unfolding eq by (simp add: torch_sigmoid_column eq list_all_iff sigmoid_r_pos sigmoid_r_lt_1)
qed

theorem forward_log_likelihood_witness:
  "forward \<lparr>s = real_column [0, 0], s_grad = None\<rparr> (real_tensor 2 3 [[1, 0, 1], [0, 1, 0]])
     = Inr ((real_tensor 1 1
               [[log_likelihood (map sum_list [[1, 0, 1], [0, 1, 0]])
                   (normalize_r (map sigmoid_r [0, 0]))]],
             real_column (normalize_r (map sigmoid_r [0, 0]))),
            \<lparr>s = real_column [0, 0], s_grad = None\<rparr>)"
proof -
  have h1: "s \<lparr>s = real_column [0, 0], s_grad = None\<rparr> = real_column [0, 0]" by simp
  have h2: "length [[1, 0, 1], [0, 1, 0 :: real]] = length [0, 0 :: real]" by simp
  have h3: "list_all (\<lambda>v. sigmoid_lo < v \<and> v < sigmoid_hi) [0, 0]"
    using sigmoid_lo_neg sigmoid_hi_gt_1 by simp
  have h4: "length [0, 0 :: real] = 2" by simp
  from forward_log_likelihood [OF h1 h2 h3, of 3, unfolded h4] show ?thesis by blast
qed

section \<open>Initialisation\<close>

lemma logit_flogit: "logit x = tmap flogit x"
  by (simp add: logit_tmap flogit_def [abs_def])

lemma Unigram_init_s:
  "s (Unigram_init V) = Tensor V 1 (replicate V [flogit (fdiv (Fin 1) (Fin (real V)))])"
  by (simp add: Unigram_init_def logit_flogit div_scalar_def tmap_tmap np_ones_def tmap_def)

lemma logit_single: "logit (Tensor 1 1 [[v]]) = Tensor 1 1 [[flogit v]]"
  by (simp add: logit_flogit tmap_def)

lemma logit_r_uniform_range:
  assumes "2 \<le> V" and "V \<le> 2 ^ 128"
  shows "sigmoid_lo < logit_r (1 / real V) \<and> logit_r (1 / real V) < sigmoid_hi"
proof -
  from assms(1) have V: "2 \<le> real V" by simp
  then have p: "0 < 1 / real V" "1 / real V < 1" by simp_all
  have "(1 / real V) / (1 - 1 / real V) = 1 / (real V - 1)"
    using V by (simp add: field_simps)
  then have l: "logit_r (1 / real V) = ln (1 / (real V - 1))"
    by (simp only: logit_r_ln [OF p])
  from assms(2) have "real V \<le> real (2 ^ 128)" by (simp only: of_nat_le_iff)
  then have "real V - 1 < 2 ^ 128" by simp
  then have "1 / 2 ^ 128 < 1 / (real V - 1)"
    using V by (intro divide_strict_left_mono) simp_all
  then have "ln (1 / 2 ^ 128) < ln (1 / (real V - 1))"
    using V by (subst ln_less_cancel_iff) simp_all
  then have lo: "sigmoid_lo < logit_r (1 / real V)"
    by (simp only: l sigmoid_lo_ln)
  have "1 / (real V - 1) \<le> 1" using V by simp
  then have "ln (1 / (real V - 1)) \<le> ln 1"
    using V by (subst ln_le_cancel_iff) simp_all
  then have "logit_r (1 / real V) \<le> 0" by (simp only: l ln_one)
  with sigmoid_hi_gt_1 have "logit_r (1 / real V) < sigmoid_hi" by linarith
  with lo show ?thesis by simp
qed

lemma fsigmoid_init_entry:
  assumes "0 < V" and "V \<le> 2 ^ 128"
  shows "fsigmoid (flogit (fdiv (Fin 1) (Fin (real V)))) = Fin (1 / real V)"
proof (cases "V = 1")
  case True
  then show ?thesis by (simp add: flogit_def fsub_def)
next
  case False
  with assms have V2: "2 \<le> V" by simp
  then have V: "1 < real V" by simp
  then have r: "0 < 1 / real V" "1 / real V < 1" by simp_all
  have d: "fdiv (Fin 1) (Fin (real V)) = Fin (1 / real V)"
    using V by simp
  have "flogit (Fin (1 / real V)) = Fin (logit_r (1 / real V))"
    using r by (simp add: flogit_def fsub_def logit_r_def)
  then have "fsigmoid (flogit (Fin (1 / real V))) = Fin (sigmoid_f32 (logit_r (1 / real V)))"
    by simp
  also have "sigmoid_f32 (logit_r (1 / real V)) = sigmoid_r (logit_r (1 / real V))"
    using logit_r_uniform_range [OF V2 assms(2)] by (simp add: sigmoid_f32_range)
  finally show ?thesis
    unfolding d sigmoid_logit_r [OF r] .
qed

lemma Unigram_init_p:
  assumes "V \<le> 2 ^ 128"
  shows "normalize_t (torch_sigmoid (s (Unigram_init V)))
           = real_column (replicate V (1 / real V))"
proof (cases "V = 0")
  case True
  then show ?thesis
    by (simp add: Unigram_init_s torch_sigmoid_def normalize_t_def div_scalar_def tmap_def
        real_column_def)
next
  case False
  then have V: "0 < V" by simp
  have "torch_sigmoid (s (Unigram_init V))
          = Tensor V 1 (replicate V [fsigmoid (flogit (fdiv (Fin 1) (Fin (real V))))])"
    unfolding Unigram_init_s torch_sigmoid_def tmap_def by simp
  then have sg: "torch_sigmoid (s (Unigram_init V)) = real_column (replicate V (1 / real V))"
    unfolding fsigmoid_init_entry [OF V assms] by (simp add: real_column_def)
  have sum: "sum_list (replicate V (1 / real V)) = 1"
    using V by (simp add: sum_list_replicate)
  then have "normalize_t (real_column (replicate V (1 / real V)))
               = real_column (normalize_r (replicate V (1 / real V)))"
    by (intro normalize_column) simp
  then show ?thesis by (simp add: sg normalize_r_def sum)
qed

text \<open>
  C2. At initialisation every entry of \<open>s\<close> is the entry \<open>l\<close> that \<open>logit\<close> gives for
  \<open>1/V\<close>, and the induced distribution \<open>normalize(sigmoid(s))\<close> is uniform, every entry
  \<open>1/V\<close>. A loop of zero iterations returns the initial state unchanged. The uniform
  distribution needs \<open>logit(1/V)\<close> above the limit below which the \<open>float32\<close> sigmoid is
  0.0, which holds for every \<open>V\<close> up to \<open>2 ^ 128\<close>; no array has that many rows.
\<close>

theorem Unigram_init_uniform:
  "\<exists>l. logit (Tensor 1 1 [[fdiv (Fin 1) (Fin (real V))]]) = Tensor 1 1 [[l]] \<and>
       s (Unigram_init V) = Tensor V 1 (replicate V [l]) \<and>
       (V \<le> 2 ^ 128 \<longrightarrow>
          normalize_t (torch_sigmoid (s (Unigram_init V)))
            = real_column (replicate V (1 / real V))) \<and>
       train_loop grad_loss adam x [0..<0]
           \<lparr>model = Unigram_init V, optimizer = st0, list_loss = [], list_items = [],
            last_p = None\<rparr>
         = Inr \<lparr>model = Unigram_init V, optimizer = st0, list_loss = [], list_items = [],
                last_p = None\<rparr>"
proof (intro exI conjI impI)
  show "logit (Tensor 1 1 [[fdiv (Fin 1) (Fin (real V))]])
          = Tensor 1 1 [[flogit (fdiv (Fin 1) (Fin (real V)))]]"
    by (rule logit_single)
  show "s (Unigram_init V) = Tensor V 1 (replicate V [flogit (fdiv (Fin 1) (Fin (real V)))])"
    by (rule Unigram_init_s)
  show "normalize_t (torch_sigmoid (s (Unigram_init V)))
          = real_column (replicate V (1 / real V))" if "V \<le> 2 ^ 128"
    using that by (rule Unigram_init_p)
qed simp

theorem Unigram_init_uniform_witness:
  "normalize_t (torch_sigmoid (s (Unigram_init 28))) = real_column (replicate 28 (1 / 28))"
proof -
  have h: "(28 :: nat) \<le> 2 ^ 128" by simp
  from Unigram_init_uniform [where V = 28 and x = "Tensor 0 0 []" and grad_loss = "\<lambda>p x. p"
      and adam = "\<lambda>st p g. (st, p)" and ?st0.0 = "0 :: nat"] h
  show ?thesis by auto
qed

section \<open>The forward pass and the training loop\<close>

lemma forward_shapes:
  assumes "nrows (s m) = nrows x" and "ncols (s m) = 1"
  shows "\<exists>v p. forward m x = Inr ((Tensor (Suc 0) (Suc 0) [[v]], p), m)"
  using assms
  by (simp add: forward_def Let_def matmul_def transpose_t_def sum_dim1_keepdim_def
      torch_log_def normalize_t_def div_scalar_def torch_sigmoid_def tmap_def)

text \<open>
  C10. \<open>forward\<close> leaves the module as it was, so \<open>s\<close> is the same before and after;
  \<open>backward\<close> and \<open>zero_grad\<close> touch the stored gradient only.
\<close>

theorem forward_keeps_parameters:
  "(forward self input = Inr (r, self') \<longrightarrow> self' = self) \<and>
   (backward grad_loss x loss self = Inr m \<longrightarrow> s m = s self) \<and>
   s (zero_grad self) = s self"
  by (auto simp: forward_def backward_def zero_grad_def Let_def split: sum.splits if_splits)

theorem forward_keeps_parameters_witness:
  "(\<exists>r. forward \<lparr>s = Tensor 1 1 [[Fin 0]], s_grad = None\<rparr> (Tensor 1 2 [[Fin 1, Fin 1]])
          = Inr (r, \<lparr>s = Tensor 1 1 [[Fin 0]], s_grad = None\<rparr>)) \<and>
   (\<exists>m. backward (\<lambda>p x. p) (Tensor 1 2 [[Fin 1, Fin 1]]) (Tensor 1 1 [[Fin 0]])
          \<lparr>s = Tensor 1 1 [[Fin 0]], s_grad = None\<rparr> = Inr m \<and>
        s m = Tensor 1 1 [[Fin 0]])"
proof -
  let ?m = "\<lparr>s = Tensor 1 1 [[Fin 0]], s_grad = None\<rparr>"
  let ?x = "Tensor 1 2 [[Fin 1, Fin 1]]"
  obtain v p where f: "forward ?m ?x = Inr ((Tensor (Suc 0) (Suc 0) [[v]], p), ?m)"
    using forward_shapes [of ?m ?x] by auto
  obtain m where b: "backward (\<lambda>p x. p) ?x (Tensor 1 1 [[Fin 0]]) ?m = Inr m"
    by (simp add: backward_def)
  from forward_keeps_parameters
    [where self = ?m and input = ?x and r = "(Tensor (Suc 0) (Suc 0) [[v]], p)"
      and self' = ?m and grad_loss = "\<lambda>p x. p" and x = ?x and loss = "Tensor 1 1 [[Fin 0]]"
      and m = m]
    f b
  show ?thesis by auto
qed

lemma item_single: "item (tneg (Tensor r c [[v]])) = Inr (fneg v)"
  by (simp add: item_def tneg_def tmap_def)

lemma train_iteration_ready:
  assumes "ready x t"
  shows "\<exists>v p. recorded_loss (s (model t)) x = Inr v \<and>
           train_iteration grad_loss adam x i t
             = Inr (t\<lparr>model := \<lparr>s = snd (adam (optimizer t) (s (model t))
                                           (grad_loss (s (model t)) x)),
                               s_grad = None\<rparr>,
                     optimizer := fst (adam (optimizer t) (s (model t))
                                        (grad_loss (s (model t)) x)),
                     list_loss := list_loss t @ [i],
                     list_items := list_items t @ [v],
                     last_p := Some p\<rparr>)"
proof -
  from assms have sh: "nrows (s (model t)) = nrows x" "ncols (s (model t)) = 1"
    and g: "s_grad (model t) = None"
    by (simp_all add: ready_def)
  then have m: "model t = \<lparr>s = s (model t), s_grad = None\<rparr>" by simp
  from forward_shapes [OF sh] obtain v p
    where f: "forward (model t) x = Inr ((Tensor (Suc 0) (Suc 0) [[v]], p), model t)" by blast
  have r: "recorded_loss (s (model t)) x = Inr (fneg v)"
    using f m by (simp add: recorded_loss_def item_single)
  have b: "backward grad_loss x (tneg (Tensor (Suc 0) (Suc 0) [[v]])) (model t)
             = Inr ((model t)\<lparr>s_grad := Some (grad_loss (s (model t)) x)\<rparr>)"
    by (simp add: backward_def tneg_def tmap_def g)
  have "train_iteration grad_loss adam x i t
          = Inr (t\<lparr>model := \<lparr>s = snd (adam (optimizer t) (s (model t))
                                        (grad_loss (s (model t)) x)),
                            s_grad = None\<rparr>,
                  optimizer := fst (adam (optimizer t) (s (model t))
                                     (grad_loss (s (model t)) x)),
                  list_loss := list_loss t @ [i],
                  list_items := list_items t @ [fneg v],
                  last_p := Some p\<rparr>)"
    by (simp add: train_iteration_def f b item_single optimizer_step_def zero_grad_def Let_def)
  with r show ?thesis by blast
qed

lemma train_loop_ready:
  assumes "keeps_shape adam" and "ready x t"
  shows "\<exists>t'. train_loop grad_loss adam x idxs t = Inr t' \<and>
           list_loss t' = list_loss t @ idxs \<and>
           map Inr (list_items t')
             = map Inr (list_items t) @
               map (\<lambda>k. recorded_loss
                          (snd (run_steps grad_loss adam x (optimizer t) (s (model t)) k)) x)
                   [0..<length idxs] \<and>
           (optimizer t', s (model t'))
             = run_steps grad_loss adam x (optimizer t) (s (model t)) (length idxs) \<and>
           ready x t'"
  using assms(2)
proof (induction idxs arbitrary: t)
  case Nil
  then show ?case by simp
next
  case (Cons i idxs)
  let ?a = "adam (optimizer t) (s (model t)) (grad_loss (s (model t)) x)"
  from train_iteration_ready [OF Cons.prems, of grad_loss adam i] obtain v p
    where v: "recorded_loss (s (model t)) x = Inr v"
      and it: "train_iteration grad_loss adam x i t
                 = Inr (t\<lparr>model := \<lparr>s = snd ?a, s_grad = None\<rparr>, optimizer := fst ?a,
                         list_loss := list_loss t @ [i], list_items := list_items t @ [v],
                         last_p := Some p\<rparr>)"
    by blast
  define t1 where "t1 = t\<lparr>model := \<lparr>s = snd ?a, s_grad = None\<rparr>, optimizer := fst ?a,
                         list_loss := list_loss t @ [i], list_items := list_items t @ [v],
                         last_p := Some p\<rparr>"
  have r1: "ready x t1"
    using Cons.prems assms(1) by (simp add: ready_def t1_def keeps_shape_def)
  from Cons.IH [OF r1] obtain t' where
    l: "train_loop grad_loss adam x idxs t1 = Inr t'"
    and ll: "list_loss t' = list_loss t1 @ idxs"
    and li: "map Inr (list_items t')
               = map Inr (list_items t1) @
                 map (\<lambda>k. recorded_loss
                            (snd (run_steps grad_loss adam x (optimizer t1) (s (model t1)) k)) x)
                     [0..<length idxs]"
    and rs: "(optimizer t', s (model t'))
               = run_steps grad_loss adam x (optimizer t1) (s (model t1)) (length idxs)"
    and rd: "ready x t'"
    by blast
  have t1s: "optimizer t1 = fst ?a" "s (model t1) = snd ?a"
    "list_loss t1 = list_loss t @ [i]" "list_items t1 = list_items t @ [v]"
    by (simp_all add: t1_def)
  have shift: "map (\<lambda>k. recorded_loss
                          (snd (run_steps grad_loss adam x (optimizer t) (s (model t)) k)) x)
                   [0..<length (i # idxs)]
               = Inr v #
                 map (\<lambda>k. recorded_loss
                            (snd (run_steps grad_loss adam x (fst ?a) (snd ?a) k)) x)
                     [0..<length idxs]"
    by (simp add: upt_conv_Cons v map_Suc_upt [symmetric] del: upt_Suc)
  have "train_loop grad_loss adam x (i # idxs) t = Inr t'"
    using it l by (simp add: t1_def)
  moreover have "list_loss t' = list_loss t @ i # idxs"
    using ll by (simp add: t1s)
  moreover have "map Inr (list_items t')
             = map Inr (list_items t) @
               map (\<lambda>k. recorded_loss
                          (snd (run_steps grad_loss adam x (optimizer t) (s (model t)) k)) x)
                   [0..<length (i # idxs)]"
    unfolding shift using li by (simp add: t1s)
  moreover have "(optimizer t', s (model t'))
             = run_steps grad_loss adam x (optimizer t) (s (model t)) (length (i # idxs))"
    using rs by (simp add: t1s)
  ultimately show ?case using rd by blast
qed

lemma Unigram_init_ready:
  assumes "nrows x = V"
  shows "ready x \<lparr>model = Unigram_init V, optimizer = st_init, list_loss = [], list_items = [],
                  last_p = None\<rparr>"
  using assms by (simp add: ready_def Unigram_init_s) (simp add: Unigram_init_def)

text \<open>
  C8. With an optimizer that keeps the parameter's shape and a batch of \<open>V\<close> rows, the
  training loop ends normally after exactly 100 iterations, whatever the losses are. The
  history holds the indices \<open>0..99\<close> and 100 losses; the loss at index \<open>k\<close> is the negated
  log-likelihood at the parameter reached by \<open>k\<close> optimizer steps, each step taken on the
  gradient of that iteration alone; the final parameter is the one after 100 steps, and the
  stored gradient is reset.
\<close>

theorem train_runs_fixed_iterations:
  assumes "keeps_shape adam" and "nrows x = V"
  shows "\<exists>t. train grad_loss adam st_init V x = Inr t \<and>
           list_loss t = [0..<100] \<and>
           length (list_items t) = 100 \<and>
           map Inr (list_items t)
             = map (\<lambda>k. recorded_loss
                        (snd (run_steps grad_loss adam x st_init (s (Unigram_init V)) k)) x)
                 [0..<100] \<and>
           (optimizer t, s (model t))
             = run_steps grad_loss adam x st_init (s (Unigram_init V)) 100 \<and>
           s_grad (model t) = None"
proof -
  let ?t0 = "\<lparr>model = Unigram_init V, optimizer = st_init, list_loss = [], list_items = [],
              last_p = None\<rparr>"
  from train_loop_ready [OF assms(1) Unigram_init_ready [OF assms(2), of st_init],
      where grad_loss = grad_loss and idxs = "[0..<num_iterations]"]
  obtain t where t: "train_loop grad_loss adam x [0..<num_iterations] ?t0 = Inr t"
    and ll: "list_loss t = list_loss ?t0 @ [0..<num_iterations]"
    and li: "map Inr (list_items t)
               = map Inr (list_items ?t0) @
                 map (\<lambda>k. recorded_loss
                            (snd (run_steps grad_loss adam x (optimizer ?t0) (s (model ?t0)) k)) x)
                     [0..<length [0..<num_iterations]]"
    and rs: "(optimizer t, s (model t))
               = run_steps grad_loss adam x (optimizer ?t0) (s (model ?t0))
                   (length [0..<num_iterations])"
    and rd: "ready x t"
    by blast
  have n: "num_iterations = 100" by (simp add: num_iterations_def)
  have li': "map Inr (list_items t)
             = map (\<lambda>k. recorded_loss
                        (snd (run_steps grad_loss adam x st_init (s (Unigram_init V)) k)) x)
                 [0..<100]"
    using li by (simp add: n)
  have "length (map (Inr :: fl \<Rightarrow> py_error + fl) (list_items t)) = 100"
    unfolding li' by simp
  then have len: "length (list_items t) = 100" by simp
  have "train grad_loss adam st_init V x = Inr t"
    using t by (simp add: train_def)
  moreover have "list_loss t = [0..<100]" using ll by (simp add: n)
  moreover have "(optimizer t, s (model t))
                   = run_steps grad_loss adam x st_init (s (Unigram_init V)) 100"
    using rs by (simp add: n)
  moreover have "s_grad (model t) = None" using rd by (simp add: ready_def)
  ultimately show ?thesis using len li' by blast
qed

theorem train_runs_fixed_iterations_witness:
  "keeps_shape (\<lambda>st p g. (Suc st, tzip fsub p g)) \<and>
   (\<exists>t. train (\<lambda>p x. p) (\<lambda>st p g. (Suc st, tzip fsub p g)) 0 2
           (Tensor 2 3 [[Fin 1, Fin 1, Fin 0], [Fin 0, Fin 0, Fin 1]]) = Inr t \<and>
        list_loss t = [0..<100] \<and> length (list_items t) = 100)"
proof -
  have k: "keeps_shape (\<lambda>st p g. (Suc st, tzip fsub p g))"
    by (simp add: keeps_shape_def tzip_def)
  have n: "nrows (Tensor 2 3 [[Fin 1, Fin 1, Fin 0], [Fin 0, Fin 0, Fin 1]]) = 2" by simp
  from train_runs_fixed_iterations [OF k n, where grad_loss = "\<lambda>p x. p" and st_init = 0] k
  show ?thesis by blast
qed

section \<open>The corpus matrix, the first loss and the minimum\<close>

lemma onehot_unit:
  assumes "vocab \<noteq> []"
  shows "onehot vocab token = Inr (unit_column (length vocab) (nat (onehot_idx vocab token))) \<and>
         nat (onehot_idx vocab token) < length vocab"
proof (cases "list_index vocab token")
  case None
  then have a: "token \<notin> set vocab" by (simp add: list_index_None)
  from assms have "0 < length vocab" by simp
  then have "nat (int (length vocab) - 1) = length vocab - 1" by linarith
  then have "nat (onehot_idx vocab token) = length vocab - 1"
    by (simp add: onehot_idx_def None)
  with onehot_fallback [OF assms a] assms show ?thesis by simp
next
  case (Some i)
  note p = list_index_Some [OF Some]
  have "nat (onehot_idx vocab token) = i" by (simp add: onehot_idx_def Some)
  moreover have "onehot vocab token = Inr (unit_column (length vocab) i)"
    using p set_item_zeros_column [of i "length vocab"]
    by (simp add: onehot_def onehot_idx_def Some)
  ultimately show ?thesis using p by simp
qed

lemma map_result_onehot:
  assumes "vocab \<noteq> []"
  shows "map_result (onehot vocab) tokens
           = Inr (map (\<lambda>t. unit_column (length vocab) (nat (onehot_idx vocab t))) tokens)"
  by (induction tokens) (simp_all add: onehot_unit [OF assms])

lemma concat_map_singleton: "concat (map (\<lambda>i. [f i]) xs) = map f xs"
  by (induction xs) simp_all

lemma np_hstack_unit_columns:
  assumes "idxs \<noteq> []"
  shows "np_hstack (map (unit_column V) idxs) = Inr (index_matrix V idxs)"
proof -
  from assms obtain i rest where c: "idxs = i # rest" by (cases idxs) auto
  have same: "list_all (\<lambda>u. nrows u = nrows (unit_column V i)) (map (unit_column V) idxs)"
    by (simp add: list_all_iff unit_column_def)
  have cols: "sum_list (map ncols (map (unit_column V) idxs)) = length idxs"
    by (induction idxs) (simp_all add: unit_column_def)
  have row: "concat (map ((\<lambda>u. rows u ! k) \<circ> unit_column V) idxs)
               = map (\<lambda>i. if k = i then Fin 1 else Fin 0) idxs" if "k < V" for k
  proof -
    have "(\<lambda>u. rows u ! k) \<circ> unit_column V = (\<lambda>i. [if k = i then Fin 1 else Fin 0])"
      using that by (auto simp: unit_column_def fun_eq_iff)
    then show ?thesis by (simp add: concat_map_singleton)
  qed
  have "map (\<lambda>k. concat (map (\<lambda>u. rows u ! k) (map (unit_column V) idxs))) [0..<V]
          = map (\<lambda>k. map (\<lambda>i. if k = i then Fin 1 else Fin 0) idxs) [0..<V]"
    by (rule map_cong) (simp_all add: row)
  moreover have "nrows (unit_column V i) = V" by (simp add: unit_column_def)
  ultimately show ?thesis
    using same cols unfolding np_hstack_def index_matrix_def
    by (simp add: c)
qed

lemma encode_corpus_index_matrix:
  assumes "vocab \<noteq> []" and "tokens \<noteq> []"
  shows "encode_corpus vocab tokens
           = Inr (index_matrix (length vocab) (map (\<lambda>t. nat (onehot_idx vocab t)) tokens))"
proof -
  have "map (\<lambda>t. unit_column (length vocab) (nat (onehot_idx vocab t))) tokens
          = map (unit_column (length vocab)) (map (\<lambda>t. nat (onehot_idx vocab t)) tokens)"
    by simp
  then show ?thesis
    using np_hstack_unit_columns [of "map (\<lambda>t. nat (onehot_idx vocab t)) tokens" "length vocab"]
      assms(2)
    by (simp add: encode_corpus_def map_result_onehot [OF assms(1)] del: map_map)
qed

lemma indicator_sum: "sum_list (map (\<lambda>i. if k = i then 1 else 0) idxs) = real (count_list idxs k)"
  by (induction idxs) auto

lemma sum_dim1_index_matrix:
  "sum_dim1_keepdim (index_matrix V idxs) = real_column (counts V idxs)"
proof -
  have "fsum (map (\<lambda>i. if k = i then Fin 1 else Fin 0) idxs) = Fin (real (count_list idxs k))"
    for k
  proof -
    have "map (\<lambda>i. if k = i then Fin 1 else Fin 0) idxs
            = map Fin (map (\<lambda>i. if k = i then 1 else 0) idxs)"
      by simp
    then show ?thesis by (simp only: fsum_Fin indicator_sum)
  qed
  then show ?thesis
    by (simp add: sum_dim1_keepdim_def index_matrix_def real_column_def counts_def comp_def)
qed

lemma length_counts: "length (counts V idxs) = V"
  by (simp add: counts_def)

lemma torch_log_real_column:
  "torch_log (real_column v) = Tensor (length v) 1 (map (\<lambda>q. [flog (Fin q)]) v)"
  by (simp add: torch_log_def tmap_def real_column_def del: flog.simps)

lemma true_p_index_matrix:
  assumes "n \<noteq> 0"
  shows "true_p (index_matrix V idxs) n = real_column (map (\<lambda>c. c / real n) (counts V idxs))"
proof -
  have "div_scalar (real_tensor V 1 (map (\<lambda>x. [x]) (counts V idxs))) (Fin (real n))
          = real_tensor V 1 (map (map (\<lambda>v. v / real n)) (map (\<lambda>x. [x]) (counts V idxs)))"
    using assms by (intro div_scalar_real) simp
  then show ?thesis
    by (simp add: true_p_def sum_dim1_index_matrix real_column_tensor length_counts comp_def)
qed

lemma tneg_transpose_column:
  "tneg (transpose_t (real_column v)) = Tensor 1 (length v) [map (\<lambda>c. Fin (- c)) v]"
  by (simp add: transpose_column tneg_def tmap_def comp_def)

lemma matmul_row_any_column:
  assumes "length v = n"
  shows "matmul (Tensor 1 n [a]) (Tensor n 1 (map (\<lambda>q. [g q]) v))
           = Inr (Tensor 1 1 [[fsum (map2 fmul a (map g v))]])"
proof -
  have "map (\<lambda>rb. rb ! 0) (map (\<lambda>q. [g q]) v) = map g v" by simp
  with assms show ?thesis by (simp add: matmul_def del: map_map)
qed

lemma minimum_loss_counts:
  assumes "n \<noteq> 0"
  shows "minimum_loss (index_matrix V idxs) n
           = Inr (fsum (map (\<lambda>c. fmul (Fin (- c)) (flog (Fin (c / real n)))) (counts V idxs)))"
proof -
  let ?cs = "counts V idxs"
  have lg: "torch_log (true_p (index_matrix V idxs) n)
              = Tensor V 1 (map (\<lambda>q. [flog (Fin q)]) (map (\<lambda>c. c / real n) ?cs))"
    unfolding true_p_index_matrix [OF assms] torch_log_real_column
    by (simp add: length_counts del: flog.simps)
  have ng: "tneg (transpose_t (sum_dim1_keepdim (index_matrix V idxs)))
              = Tensor 1 V [map (\<lambda>c. Fin (- c)) ?cs]"
    unfolding sum_dim1_index_matrix tneg_transpose_column by (simp add: length_counts)
  have "matmul (Tensor 1 V [map (\<lambda>c. Fin (- c)) ?cs])
          (Tensor V 1 (map (\<lambda>q. [flog (Fin q)]) (map (\<lambda>c. c / real n) ?cs)))
        = Inr (Tensor 1 1 [[fsum (map2 fmul (map (\<lambda>c. Fin (- c)) ?cs)
                                   (map (\<lambda>q. flog (Fin q)) (map (\<lambda>c. c / real n) ?cs)))]])"
    by (rule matmul_row_any_column) (simp add: length_counts)
  also have "map2 fmul (map (\<lambda>c. Fin (- c)) ?cs)
               (map (\<lambda>q. flog (Fin q)) (map (\<lambda>c. c / real n) ?cs))
             = map (\<lambda>c. fmul (Fin (- c)) (flog (Fin (c / real n)))) ?cs"
    unfolding map_map comp_def by (rule map2_same)
  finally show ?thesis
    unfolding minimum_loss_def lg ng by (simp add: item_def)
qed

lemma fadd_NaN_right: "fadd a NaN = NaN"
  by (cases a) simp_all

lemma fsum_NaN:
  assumes "NaN \<in> set xs"
  shows "fsum xs = NaN"
  using assms
proof (induction xs)
  case Nil
  then show ?case by simp
next
  case (Cons a xs)
  show ?case
  proof (cases "a = NaN")
    case True
    then show ?thesis by (simp add: fsum_def)
  next
    case False
    with Cons have "fsum xs = NaN" by simp
    then show ?thesis by (simp add: fsum_def fadd_NaN_right)
  qed
qed

text \<open>
  When a symbol of the vocabulary does not occur in the corpus, its count is zero,
  \<open>true_p\<close> is zero there, \<open>torch.log\<close> gives \<open>-inf\<close>, and the product of the zero count
  and \<open>-inf\<close> in the matrix product makes the script's \<open>min\<close> NaN.
\<close>

lemma minimum_loss_absent_symbol:
  assumes "n \<noteq> 0" and "k < V" and "k \<notin> set idxs"
  shows "minimum_loss (index_matrix V idxs) n = Inr NaN"
proof -
  have "count_list idxs k = 0" using assms(3) by (simp add: count_list_0_iff)
  then have "0 \<in> set (counts V idxs)"
    using assms(2) by (force simp: counts_def)
  then have "fmul (Fin (- 0)) (flog (Fin (0 / real n)))
               \<in> set (map (\<lambda>c. fmul (Fin (- c)) (flog (Fin (c / real n)))) (counts V idxs))"
    unfolding set_map by (rule imageI)
  then have "NaN \<in> set (map (\<lambda>c. fmul (Fin (- c)) (flog (Fin (c / real n)))) (counts V idxs))"
    by simp
  then show ?thesis
    unfolding minimum_loss_counts [OF assms(1)] by (simp only: fsum_NaN)
qed

lemma sum_list_indicator_upt:
  "sum_list (map (\<lambda>k. if k = i then 1 else 0) [0..<V]) = (if i < V then 1 else (0::real))"
  by (induction V) auto

lemma sum_list_counts:
  assumes "list_all (\<lambda>i. i < V) idxs"
  shows "sum_list (counts V idxs) = real (length idxs)"
  using assms
proof (induction idxs)
  case Nil
  then show ?case by (simp add: counts_def)
next
  case (Cons i idxs)
  have "(\<lambda>k. real (count_list (i # idxs) k))
          = (\<lambda>k. real (count_list idxs k) + (if k = i then 1 else 0))"
    by (auto simp: fun_eq_iff)
  then have "sum_list (counts V (i # idxs))
               = sum_list (counts V idxs) + sum_list (map (\<lambda>k. if k = i then 1 else 0) [0..<V])"
    by (simp only: counts_def sum_list_addf)
  with Cons show ?case by (simp add: sum_list_indicator_upt)
qed

lemma sum_list_map2_replicate:
  assumes "length cs = V"
  shows "sum_list (map2 (*) cs (replicate V a)) = sum_list cs * (a :: real)"
  using assms
proof (induction cs arbitrary: V)
  case Nil
  then show ?case by simp
next
  case (Cons c cs)
  then obtain W where "V = Suc W" "length cs = W" by (cases V) auto
  with Cons.IH [of W] show ?case by (simp add: algebra_simps)
qed

lemma recorded_loss_init:
  assumes "0 < V" and "V \<le> 2 ^ 128"
  shows "recorded_loss (s (Unigram_init V)) (index_matrix V idxs)
           = Inr (Fin (sum_list (counts V idxs) * ln (real V)))"
proof -
  let ?m = "\<lparr>s = s (Unigram_init V), s_grad = None\<rparr>"
  let ?p = "replicate V (1 / real V)"
  have pos: "list_all (\<lambda>q. 0 < q) ?p"
    using assms(1) by (simp add: list_all_iff)
  have lp: "torch_log (real_column ?p) = real_column (replicate V (ln (1 / real V)))"
    using torch_log_column [OF pos] by simp
  have len: "length (replicate V (ln (1 / real V))) = length (counts V idxs)"
    by (simp add: length_counts)
  have mm: "matmul (transpose_t (sum_dim1_keepdim (index_matrix V idxs)))
              (torch_log (real_column ?p))
            = Inr (real_tensor 1 1
                     [[sum_list (map2 (*) (counts V idxs) (replicate V (ln (1 / real V))))]])"
    unfolding lp sum_dim1_index_matrix transpose_column
    by (rule matmul_row_column [OF len])
  have val: "sum_list (map2 (*) (counts V idxs) (replicate V (ln (1 / real V))))
               = - (sum_list (counts V idxs) * ln (real V))"
    using assms(1) by (simp add: sum_list_map2_replicate [OF length_counts] ln_div)
  have "forward ?m (index_matrix V idxs)
          = Inr ((real_tensor 1 1 [[- (sum_list (counts V idxs) * ln (real V))]],
                  real_column ?p), ?m)"
    by (simp add: forward_def Let_def Unigram_init_p [OF assms(2)] mm val)
  then show ?thesis
    by (simp add: recorded_loss_def real_tensor_def item_def tneg_def tmap_def)
qed

lemma fmul_flog_pos:
  assumes "0 < q"
  shows "fmul (Fin a) (flog (Fin q)) = Fin (a * ln q)"
  using assms by simp

lemma minimum_loss_all_present:
  assumes "n \<noteq> 0" and "list_all (\<lambda>c. 0 < c) (counts V idxs)"
  shows "minimum_loss (index_matrix V idxs) n
           = Inr (Fin (- sum_list (map (\<lambda>c. c * ln (c / real n)) (counts V idxs))))"
proof -
  have "map (\<lambda>c. fmul (Fin (- c)) (flog (Fin (c / real n)))) (counts V idxs)
          = map Fin (map (\<lambda>c. - (c * ln (c / real n))) (counts V idxs))"
    unfolding map_map comp_def
  proof (rule map_cong [OF refl])
    fix c assume "c \<in> set (counts V idxs)"
    with assms(2) have "0 < c" by (simp add: list_all_iff)
    with assms(1) have q: "0 < c / real n" by simp
    show "fmul (Fin (- c)) (flog (Fin (c / real n))) = Fin (- (c * ln (c / real n)))"
      unfolding fmul_flog_pos [OF q] by simp
  qed
  then show ?thesis
    unfolding minimum_loss_counts [OF assms(1)]
    by (simp only: fsum_Fin) (simp add: uminus_sum_list_map comp_def)
qed

lemma gibbs_counts:
  fixes cs :: "real list"
  assumes nn: "list_all (\<lambda>c. 0 \<le> c) cs" and V: "0 < length cs" and T: "0 < sum_list cs"
  shows "sum_list (map (\<lambda>c. c * ln (1 / real (length cs))) cs)
           \<le> sum_list (map (\<lambda>c. c * ln (c / sum_list cs)) cs)"
proof -
  let ?V = "real (length cs)"
  let ?T = "sum_list cs"
  have Vp: "0 < ?V" using V by simp
  have step: "c * ln (1 / ?V) - c * ln (c / ?T) \<le> ?T / ?V - c" if "c \<in> set cs" for c
  proof (cases "c = 0")
    case True
    then show ?thesis using T Vp by simp
  next
    case False
    with that nn have c: "0 < c" by (force simp: list_all_iff)
    have r: "0 < (1 / ?V) / (c / ?T)" using c T Vp by simp
    have a: "1 / ?V \<noteq> 0" "c / ?T \<noteq> 0" using c T Vp by simp_all
    have "ln (1 / ?V) - ln (c / ?T) = ln ((1 / ?V) / (c / ?T))"
      using a ln_div [of "1 / ?V" "c / ?T"] by presburger
    also have "\<dots> \<le> (1 / ?V) / (c / ?T) - 1"
      using ln_le_minus_one [OF r] .
    finally have "c * (ln (1 / ?V) - ln (c / ?T)) \<le> c * ((1 / ?V) / (c / ?T) - 1)"
      using c by (simp add: mult_le_cancel_left_pos)
    also have "\<dots> = ?T / ?V - c"
      using c T Vp by (simp add: field_simps)
    finally show ?thesis by (simp add: algebra_simps)
  qed
  have "sum_list (map (\<lambda>c. c * ln (1 / ?V) - c * ln (c / ?T)) cs)
          \<le> sum_list (map (\<lambda>c. ?T / ?V - c) cs)"
    by (rule sum_list_mono) (rule step)
  also have "\<dots> = ?V * (?T / ?V) - ?T"
    by (simp add: sum_list_subtractf sum_list_triv)
  also have "\<dots> = 0" using Vp by simp
  finally show ?thesis by (simp add: sum_list_subtractf)
qed

lemma sum_list_scale: "sum_list (map (\<lambda>c. c * a) cs) = sum_list cs * (a :: real)"
  by (induction cs) (simp_all add: algebra_simps)

lemma theoretical_minimum_sum:
  "theoretical_minimum cs n = - sum_list (map (\<lambda>c. c * ln (c / n)) cs)"
proof -
  have "map2 (\<lambda>c q. c * ln q) cs (map (\<lambda>c. c / n) cs) = map (\<lambda>c. c * ln (c / n)) cs"
    by (induction cs) simp_all
  then show ?thesis by (simp add: theoretical_minimum_def log_likelihood_def)
qed

lemma first_loss_ge_minimum:
  assumes "0 < V" and "list_all (\<lambda>i. i < V) idxs" and "idxs \<noteq> []"
  shows "theoretical_minimum (counts V idxs) (real (length idxs))
           \<le> sum_list (counts V idxs) * ln (real V)"
proof -
  let ?cs = "counts V idxs"
  have T: "sum_list ?cs = real (length idxs)"
    by (rule sum_list_counts [OF assms(2)])
  have nn: "list_all (\<lambda>c. 0 \<le> c) ?cs"
    by (simp add: counts_def list_all_iff)
  have lc: "0 < length ?cs" using assms(1) by (simp add: length_counts)
  have Tp: "0 < sum_list ?cs" using assms(3) by (simp add: T)
  have "sum_list (map (\<lambda>c. c * ln (1 / real (length ?cs))) ?cs)
          \<le> sum_list (map (\<lambda>c. c * ln (c / sum_list ?cs)) ?cs)"
    by (rule gibbs_counts [OF nn lc Tp])
  moreover have "sum_list (map (\<lambda>c. c * ln (1 / real (length ?cs))) ?cs)
                   = - (sum_list ?cs * ln (real V))"
  proof -
    have "ln (1 / real (length ?cs)) = - ln (real V)"
      using assms(1) by (simp add: length_counts ln_div)
    then show ?thesis
      unfolding sum_list_scale by simp
  qed
  ultimately show ?thesis
    by (simp add: theoretical_minimum_sum T)
qed

lemma train_first_loss:
  assumes "keeps_shape adam" and "nrows x = V"
    and "recorded_loss (s (Unigram_init V)) x = Inr v"
  shows "\<exists>t. train grad_loss adam st_init V x = Inr t \<and> list_items t ! 0 = v"
proof -
  let ?t0 = "\<lparr>model = Unigram_init V, optimizer = st_init, list_loss = [], list_items = [],
              last_p = None\<rparr>"
  let ?f = "\<lambda>k. recorded_loss
                  (snd (run_steps grad_loss adam x (optimizer ?t0) (s (model ?t0)) k)) x"
  from train_loop_ready [OF assms(1) Unigram_init_ready [OF assms(2), of st_init],
      where grad_loss = grad_loss and idxs = "[0..<num_iterations]"]
  obtain t where t: "train_loop grad_loss adam x [0..<num_iterations] ?t0 = Inr t"
    and li: "map Inr (list_items t)
               = map Inr (list_items ?t0) @ map ?f [0..<length [0..<num_iterations]]"
    by blast
  have n: "num_iterations = 100" by (simp add: num_iterations_def)
  have li': "map (Inr :: fl \<Rightarrow> py_error + fl) (list_items t) = map ?f [0..<100]"
    using li by (simp add: n)
  have "length (map (Inr :: fl \<Rightarrow> py_error + fl) (list_items t)) = 100"
    unfolding li' by simp
  then have len: "0 < length (list_items t)" by simp
  have "map (Inr :: fl \<Rightarrow> py_error + fl) (list_items t) ! 0 = map ?f [0..<100] ! 0"
    by (simp only: li')
  then have "(Inr (list_items t ! 0) :: py_error + fl) = ?f 0"
    using len by (simp add: nth_map)
  then have "list_items t ! 0 = v"
    by (simp add: assms(3))
  moreover have "train grad_loss adam st_init V x = Inr t"
    using t by (simp add: train_def)
  ultimately show ?thesis by blast
qed

text \<open>
  The specification's scenario: the corpus \<open>aab \<close> over the 28 symbols of the script is
  encoded as the columns of the indices 0, 0, 1 and 26, and its loss at iteration 0 is
  \<open>4 ln 28\<close>.
\<close>

lemma aab_scenario:
  "encode_corpus vocabulary (tokens_of ''aab '') = Inr (index_matrix 28 [0, 0, 1, 26]) \<and>
   recorded_loss (s (Unigram_init (length vocabulary))) (index_matrix 28 [0, 0, 1, 26])
     = Inr (Fin (4 * ln 28))"
proof (intro conjI)
  have v: "vocabulary \<noteq> []" by (simp add: vocabulary_def)
  have t: "tokens_of ''aab '' \<noteq> []" by (simp add: tokens_of_def)
  have len: "length vocabulary = 28" by (simp add: vocabulary_def)
  have idx: "map (\<lambda>t. nat (onehot_idx vocabulary t)) (tokens_of ''aab '') = [0, 0, 1, 26]"
    by (simp add: vocabulary_def tokens_of_def onehot_idx_def)
  show "encode_corpus vocabulary (tokens_of ''aab '') = Inr (index_matrix 28 [0, 0, 1, 26])"
    using encode_corpus_index_matrix [OF v t] by (simp only: idx len)
  have "list_all (\<lambda>i. i < 28) [0, 0, 1, 26 :: nat]" by simp
  then have "sum_list (counts 28 [0, 0, 1, 26]) = real (length [0, 0, 1, 26 :: nat])"
    by (rule sum_list_counts)
  then have c: "sum_list (counts 28 [0, 0, 1, 26]) = 4" by simp
  have "recorded_loss (s (Unigram_init 28)) (index_matrix 28 [0, 0, 1, 26])
          = Inr (Fin (sum_list (counts 28 [0, 0, 1, 26]) * ln (real 28)))"
    by (rule recorded_loss_init) simp_all
  then show "recorded_loss (s (Unigram_init (length vocabulary))) (index_matrix 28 [0, 0, 1, 26])
               = Inr (Fin (4 * ln 28))"
    by (simp only: c len) simp
qed

text \<open>
  C3. For every non-empty corpus, the loss recorded at iteration 0 of training is at least
  the theoretical minimum loss, the negative log-likelihood of the corpus under its
  empirical frequencies (the row sums of the encoding matrix divided by the number of
  tokens). When every symbol of the vocabulary occurs in the corpus, as in the corpus the
  script reads, the value \<open>min\<close> that the script computes is this minimum. (Gibbs'
  inequality, from \<open>ln x \<le> x - 1\<close>; the vocabulary has at most \<open>2 ^ 128\<close> symbols.)
\<close>

theorem initial_loss_ge_theoretical_minimum:
  assumes "vocab \<noteq> []" and "tokens \<noteq> []" and "length vocab \<le> 2 ^ 128"
    and "keeps_shape adam"
  shows "\<exists>x t l. encode_corpus vocab tokens = Inr x \<and>
           sum_dim1_keepdim x
             = real_column (counts (length vocab) (map (\<lambda>t. nat (onehot_idx vocab t)) tokens)) \<and>
           train grad_loss adam st_init (length vocab) x = Inr t \<and>
           list_items t ! 0 = Fin l \<and>
           theoretical_minimum
               (counts (length vocab) (map (\<lambda>t. nat (onehot_idx vocab t)) tokens))
               (real (length tokens)) \<le> l \<and>
           (list_all (\<lambda>c. 0 < c)
              (counts (length vocab) (map (\<lambda>t. nat (onehot_idx vocab t)) tokens)) \<longrightarrow>
            minimum_loss x (length tokens)
              = Inr (Fin (theoretical_minimum
                            (counts (length vocab) (map (\<lambda>t. nat (onehot_idx vocab t)) tokens))
                            (real (length tokens)))))"
proof -
  let ?V = "length vocab"
  let ?idxs = "map (\<lambda>t. nat (onehot_idx vocab t)) tokens"
  let ?cs = "counts ?V ?idxs"
  let ?x = "index_matrix ?V ?idxs"
  from assms(1) have V: "0 < ?V" by simp
  from assms(2) have n: "length tokens \<noteq> 0" and ne: "?idxs \<noteq> []" by simp_all
  have lt: "list_all (\<lambda>i. i < ?V) ?idxs"
    using onehot_unit [OF assms(1)] by (simp add: list_all_iff)
  have enc: "encode_corpus vocab tokens = Inr ?x"
    by (rule encode_corpus_index_matrix [OF assms(1,2)])
  have l: "recorded_loss (s (Unigram_init ?V)) ?x = Inr (Fin (sum_list ?cs * ln (real ?V)))"
    by (rule recorded_loss_init [OF V assms(3)])
  have nr: "nrows ?x = ?V" by (simp add: index_matrix_def)
  from train_first_loss [OF assms(4) nr l, of grad_loss st_init]
  obtain t where t: "train grad_loss adam st_init ?V ?x = Inr t"
    and f: "list_items t ! 0 = Fin (sum_list ?cs * ln (real ?V))"
    by blast
  have g: "theoretical_minimum ?cs (real (length tokens)) \<le> sum_list ?cs * ln (real ?V)"
    using first_loss_ge_minimum [OF V lt ne] by simp
  have m: "minimum_loss ?x (length tokens)
             = Inr (Fin (theoretical_minimum ?cs (real (length tokens))))"
    if "list_all (\<lambda>c. 0 < c) ?cs"
    using minimum_loss_all_present [OF n that] by (simp only: theoretical_minimum_sum)
  from enc sum_dim1_index_matrix [of ?V ?idxs] t f g m show ?thesis by blast
qed

theorem initial_loss_ge_theoretical_minimum_witness:
  "keeps_shape (\<lambda>st p g. (Suc st, tzip fsub p g)) \<and>
   (\<exists>x t l. encode_corpus [Some ''a'', None] [Some ''a'', Some ''b''] = Inr x \<and>
      train (\<lambda>p x. p) (\<lambda>st p g. (Suc st, tzip fsub p g)) 0 2 x = Inr t \<and>
      list_items t ! 0 = Fin l \<and>
      theoretical_minimum [1, 1] 2 \<le> l \<and>
      minimum_loss x 2 = Inr (Fin (theoretical_minimum [1, 1] 2)))"
proof -
  have k: "keeps_shape (\<lambda>st p g. (Suc st, tzip fsub p g))"
    by (simp add: keeps_shape_def tzip_def)
  have v: "[Some ''a'', None] \<noteq> []" by simp
  have t: "[Some ''a'', Some ''b''] \<noteq> []" by simp
  have b: "length [Some ''a'', None] \<le> 2 ^ 128" by simp
  have i: "map (\<lambda>t. nat (onehot_idx [Some ''a'', None] t)) [Some ''a'', Some ''b''] = [0, 1]"
    by (simp add: onehot_idx_def)
  have c: "counts 2 [0, 1] = [1, 1]"
    by (simp add: counts_def upt_conv_Cons)
  have len: "length [Some ''a'', None] = 2" "length [Some ''a'', Some ''b''] = 2"
    by simp_all
  have p: "list_all (\<lambda>c. 0 < c) [1, 1 :: real]" by simp
  from initial_loss_ge_theoretical_minimum [OF v t b k, where grad_loss = "\<lambda>p x. p"
      and st_init = 0, unfolded i len c] p k
  show ?thesis by auto
qed

end
